theory Spec2Isabelle
  imports Main "HOL-Library.AList"
begin

section \<open>Python values used by the bot\<close>

text \<open>
  The exceptions that the modelled code can raise. \<open>IntegrityError\<close>,
  \<open>OperationalError\<close> and \<open>OverflowError\<close> come out of the \<open>sqlite3\<close> module
  (constraint violation; storage failure or exhausted rowids; a Python int that does not
  fit an SQLite INTEGER), \<open>IndexError\<close> and \<open>ValueError\<close> out of list indexing and
  \<open>int(...)\<close>.
\<close>

datatype exn = IntegrityError | OperationalError | OverflowError | IndexError | ValueError

text \<open>Python list indexing \<open>xs[i]\<close>: a negative index counts from the end.\<close>

definition py_index :: "'a list \<Rightarrow> int \<Rightarrow> exn + 'a" where
  "py_index xs i =
     (let n = int (length xs) in
      if 0 \<le> i \<and> i < n then Inr (xs ! nat i)
      else if - n \<le> i \<and> i < 0 then Inr (xs ! nat (n + i))
      else Inl IndexError)"

text \<open>The range of an SQLite INTEGER (64-bit signed).\<close>

definition int64_min :: int where
  "int64_min = - 9223372036854775808"

definition int64_max :: int where
  "int64_max = 9223372036854775807"

definition fits_int64 :: "int \<Rightarrow> bool" where
  "fits_int64 i = (int64_min \<le> i \<and> i \<le> int64_max)"


section \<open>The SQLite database of \<open>DatabaseManager\<close>\<close>

text \<open>
  Table \<open>categories (id TEXT PRIMARY KEY, name, created_by, created_at)\<close>. The table
  has an implicit rowid; a new row gets a rowid above every existing one, so the list
  below is the table in rowid order and an insert appends.
\<close>

record category_row =
  c_id :: string
  c_name :: string
  c_created_by :: int
  c_created_at :: string

text \<open>
  Table \<open>files (id INTEGER PRIMARY KEY AUTOINCREMENT, category_id, file_id, file_name,
  file_size, caption, upload_date)\<close>. The column \<open>id\<close> is the rowid: the table is a
  B-tree keyed by it, and a scan without an index (there is none on \<open>category_id\<close>)
  visits the rows by ascending \<open>id\<close>. The list below is the table in that stored order;
  an insert puts the row at the place of its key.
\<close>

record file_row =
  f_id :: int
  f_category_id :: string
  f_file_id :: string
  f_file_name :: string
  f_file_size :: int
  f_caption :: "string option"
  f_upload_date :: string

text \<open>
  \<open>db_seq\<close> is the entry of table \<open>sqlite_sequence\<close> for \<open>files\<close>: the largest rowid
  AUTOINCREMENT has handed out (0 while there is no entry).
\<close>

record database =
  db_categories :: "category_row list"
  db_files :: "file_row list"
  db_seq :: int

text \<open>
  The dicts of the Python side. A file dict is built by \<open>handle_document\<close> from a
  Telegram document, whose \<open>file_name\<close> and \<open>file_size\<close> are optional, and by
  \<open>get_categories\<close> from a row.
\<close>

record file_info =
  fi_file_id :: string
  fi_file_name :: "string option"
  fi_file_size :: "int option"
  fi_caption :: string

record category =
  cat_name :: string
  cat_files :: "file_info list"
  cat_created_by :: int
  cat_created_at :: string

text \<open>\<open>init_database\<close> on a fresh file: both tables exist and are empty.\<close>

definition init_database :: database where
  "init_database = \<lparr>db_categories = [], db_files = [], db_seq = 0\<rparr>"

text \<open>
  \<open>sqlite3.connect\<close> and every statement after it can fail on the storage (file not
  writable, database locked, disk full). The flag \<open>storage_ok\<close> of each method says
  whether the storage works during that call; when it does not, \<open>OperationalError\<close>
  is raised inside the \<open>try\<close>.
\<close>

definition connect :: "bool \<Rightarrow> exn + unit" where
  "connect storage_ok = (if storage_ok then Inr () else Inl OperationalError)"

subsection \<open>Statements\<close>

text \<open>
  The rowid that AUTOINCREMENT chooses: one more than the largest rowid that the table
  holds or has ever handed out. When that was the largest 64-bit value the insert fails
  (SQLITE_FULL).
\<close>

definition next_rowid :: "database \<Rightarrow> int" where
  "next_rowid d = fold max (map f_id (db_files d)) (db_seq d) + 1"

text \<open>
  One \<open>INSERT INTO files (category_id, file_id, file_name, file_size, caption,
  upload_date) VALUES (?, ?, ?, ?, ?, ?)\<close>. Binding a \<open>file_size\<close> outside 64 bits
  raises \<open>OverflowError\<close>; \<open>file_name\<close> and \<open>file_size\<close> are NOT NULL. The
  connection never issues \<open>PRAGMA foreign_keys = ON\<close>, so SQLite does not enforce the
  FOREIGN KEY clause of the schema: no statement looks at \<open>categories\<close> here.
\<close>

definition insert_file :: "string \<Rightarrow> string \<Rightarrow> file_info \<Rightarrow> database \<Rightarrow> exn + database" where
  "insert_file category_id upload_date fi d =
     (if (case fi_file_size fi of None \<Rightarrow> False | Some sz \<Rightarrow> \<not> fits_int64 sz)
      then Inl OverflowError
      else if int64_max < next_rowid d then Inl OperationalError
      else (case (fi_file_name fi, fi_file_size fi) of
              (Some nm, Some sz) \<Rightarrow>
                Inr (d\<lparr>db_files :=
                         insort_key f_id
                           \<lparr>f_id = next_rowid d, f_category_id = category_id,
                            f_file_id = fi_file_id fi, f_file_name = nm,
                            f_file_size = sz, f_caption = Some (fi_caption fi),
                            f_upload_date = upload_date\<rparr>
                           (db_files d),
                       db_seq := next_rowid d\<rparr>)
            | _ \<Rightarrow> Inl IntegrityError))"

text \<open>The \<open>for file_info in files\<close> loop of \<open>add_files_to_category\<close>.\<close>

fun insert_files :: "string \<Rightarrow> string \<Rightarrow> file_info list \<Rightarrow> database \<Rightarrow> exn + database" where
  "insert_files category_id upload_date [] d = Inr d"
| "insert_files category_id upload_date (fi # fis) d =
     (case insert_file category_id upload_date fi d of
        Inl e \<Rightarrow> Inl e
      | Inr d' \<Rightarrow> insert_files category_id upload_date fis d')"

text \<open>
  \<open>INSERT INTO categories (id, name, created_by, created_at) VALUES (?, ?, ?, ?)\<close>:
  the primary key must be new.
\<close>

definition insert_category :: "string \<Rightarrow> string \<Rightarrow> int \<Rightarrow> string \<Rightarrow> database \<Rightarrow> exn + database" where
  "insert_category category_id name created_by created_at d =
     (if \<not> fits_int64 created_by then Inl OverflowError
      else if category_id \<in> set (map c_id (db_categories d)) then Inl IntegrityError
      else Inr (d\<lparr>db_categories := db_categories d @
                  [\<lparr>c_id = category_id, c_name = name, c_created_by = created_by,
                    c_created_at = created_at\<rparr>]\<rparr>))"

text \<open>\<open>SELECT ... FROM files WHERE category_id = ?\<close>, with and without \<open>ORDER BY id\<close>.\<close>

definition select_files :: "database \<Rightarrow> string \<Rightarrow> file_row list" where
  "select_files d category_id = [r \<leftarrow> db_files d. f_category_id r = category_id]"

definition select_files_order_by_id :: "database \<Rightarrow> string \<Rightarrow> file_row list" where
  "select_files_order_by_id d category_id =
     sort_key f_id [r \<leftarrow> db_files d. f_category_id r = category_id]"

subsection \<open>The methods of \<open>DatabaseManager\<close>\<close>

text \<open>
  Every method runs its statements inside \<open>with sqlite3.connect(...) as conn\<close>, which
  rolls the transaction back when an exception leaves the block, and turns every
  exception into the result \<open>False\<close> (or the empty dict): on \<open>Inl\<close> the database that
  went in comes out.
\<close>

definition add_category :: "bool \<Rightarrow> string \<Rightarrow> database \<Rightarrow> string \<Rightarrow> string \<Rightarrow> int \<Rightarrow> bool \<times> database" where
  "add_category storage_ok now d category_id name created_by =
     (case connect storage_ok of
        Inl e \<Rightarrow> (False, d)
      | Inr _ \<Rightarrow>
          (case insert_category category_id name created_by now d of
             Inl e \<Rightarrow> (False, d)
           | Inr d' \<Rightarrow> (True, d')))"

definition row_to_dict :: "file_row \<Rightarrow> file_info" where
  "row_to_dict r =
     \<lparr>fi_file_id = f_file_id r, fi_file_name = Some (f_file_name r),
      fi_file_size = Some (f_file_size r),
      fi_caption = (case f_caption r of None \<Rightarrow> [] | Some c \<Rightarrow> c)\<rparr>"

text \<open>
  \<open>get_categories\<close> fills a dict in the order of \<open>SELECT * FROM categories\<close>; a dict
  keeps the place of a key that is assigned again, as \<open>AList.update\<close> does.
\<close>

definition get_categories :: "bool \<Rightarrow> database \<Rightarrow> (string \<times> category) list" where
  "get_categories storage_ok d =
     (case connect storage_ok of
        Inl e \<Rightarrow> []
      | Inr _ \<Rightarrow>
          fold (\<lambda>c categories.
                  AList.update (c_id c)
                    \<lparr>cat_name = c_name c,
                     cat_files = map row_to_dict (select_files d (c_id c)),
                     cat_created_by = c_created_by c,
                     cat_created_at = c_created_at c\<rparr> categories)
               (db_categories d) [])"

definition get_category :: "bool \<Rightarrow> database \<Rightarrow> string \<Rightarrow> category option" where
  "get_category storage_ok d category_id = map_of (get_categories storage_ok d) category_id"

definition add_file_to_category :: "bool \<Rightarrow> string \<Rightarrow> database \<Rightarrow> string \<Rightarrow> file_info \<Rightarrow> bool \<times> database" where
  "add_file_to_category storage_ok now d category_id fi =
     (case connect storage_ok of
        Inl e \<Rightarrow> (False, d)
      | Inr _ \<Rightarrow>
          (case insert_file category_id now fi d of
             Inl e \<Rightarrow> (False, d)
           | Inr d' \<Rightarrow> (True, d')))"

definition add_files_to_category :: "bool \<Rightarrow> string \<Rightarrow> database \<Rightarrow> string \<Rightarrow> file_info list \<Rightarrow> bool \<times> database" where
  "add_files_to_category storage_ok now d category_id fis =
     (case connect storage_ok of
        Inl e \<Rightarrow> (False, d)
      | Inr _ \<Rightarrow>
          (case insert_files category_id now fis d of
             Inl e \<Rightarrow> (False, d)
           | Inr d' \<Rightarrow> (True, d')))"

text \<open>
  \<open>delete_file\<close>: the only bound it checks is \<open>file_index >= len(file_ids)\<close>; the
  index then goes to Python's list indexing.
\<close>

definition delete_file :: "bool \<Rightarrow> database \<Rightarrow> string \<Rightarrow> int \<Rightarrow> bool \<times> database" where
  "delete_file storage_ok d category_id file_index =
     (case connect storage_ok of
        Inl e \<Rightarrow> (False, d)
      | Inr _ \<Rightarrow>
          (let file_ids = map f_id (select_files_order_by_id d category_id) in
           if int (length file_ids) \<le> file_index then (False, d)
           else (case py_index file_ids file_index of
                   Inl e \<Rightarrow> (False, d)
                 | Inr file_id \<Rightarrow>
                     (True, d\<lparr>db_files := [r \<leftarrow> db_files d. f_id r \<noteq> file_id]\<rparr>))))"

definition delete_category :: "bool \<Rightarrow> database \<Rightarrow> string \<Rightarrow> bool \<times> database" where
  "delete_category storage_ok d category_id =
     (case connect storage_ok of
        Inl e \<Rightarrow> (False, d)
      | Inr _ \<Rightarrow>
          (True, d\<lparr>db_files := [r \<leftarrow> db_files d. f_category_id r \<noteq> category_id],
                   db_categories := [c \<leftarrow> db_categories d. c_id c \<noteq> category_id]\<rparr>))"

section \<open>Strings\<close>

text \<open>
  Strings are lists of characters with code points below 256. \<open>s.startswith(p)\<close>,
  \<open>sep.join(xs)\<close>, \<open>s.split(sep, 1)\<close>, \<open>str(n)\<close> for an index and \<open>int(s)\<close>.
\<close>

definition startswith :: "string \<Rightarrow> string \<Rightarrow> bool" where
  "startswith s p = (take (length p) s = p)"

fun py_join :: "string \<Rightarrow> string list \<Rightarrow> string" where
  "py_join sep [] = []"
| "py_join sep [x] = x"
| "py_join sep (x # y # ys) = x @ sep @ py_join sep (y # ys)"

definition split1 :: "char \<Rightarrow> string \<Rightarrow> string list" where
  "split1 sep s =
     (case dropWhile (\<lambda>c. c \<noteq> sep) s of
        [] \<Rightarrow> [s]
      | _ # rest \<Rightarrow> [takeWhile (\<lambda>c. c \<noteq> sep) s, rest])"

definition digit_char :: "nat \<Rightarrow> char" where
  "digit_char n = char_of (48 + n)"

fun str_nat :: "nat \<Rightarrow> string" where
  "str_nat n = (if n < 10 then [digit_char n] else str_nat (n div 10) @ [digit_char (n mod 10)])"

declare str_nat.simps [simp del]

text \<open>
  The characters that \<open>int\<close> skips around a literal: tab to carriage return and the
  space and, above the ASCII range, the next-line control and the no-break space. The
  separators 28 to 31 are not among them.
\<close>

definition py_isspace :: "char \<Rightarrow> bool" where
  "py_isspace c = ((of_char c :: nat) \<in> {9, 10, 11, 12, 13, 32, 133, 160})"

definition py_strip :: "string \<Rightarrow> string" where
  "py_strip s = rev (dropWhile py_isspace (rev (dropWhile py_isspace s)))"

definition is_digit :: "char \<Rightarrow> bool" where
  "is_digit c = (48 \<le> (of_char c :: nat) \<and> (of_char c :: nat) \<le> 57)"

definition digit_value :: "char \<Rightarrow> nat" where
  "digit_value c = of_char c - 48"

text \<open>
  The digits of a decimal literal after its first digit: single underscores may stand
  between digits.
\<close>

fun parse_digits :: "nat \<Rightarrow> string \<Rightarrow> nat option" where
  "parse_digits acc [] = Some acc"
| "parse_digits acc [c] = (if is_digit c then Some (10 * acc + digit_value c) else None)"
| "parse_digits acc (c # c' # cs) =
     (if is_digit c then parse_digits (10 * acc + digit_value c) (c' # cs)
      else if c = CHR ''_'' \<and> is_digit c' then parse_digits (10 * acc + digit_value c') cs
      else None)"

text \<open>
  A decimal literal starts with a digit; with more digits than the interpreter's default
  limit for the conversion (4300) it is refused.
\<close>

definition max_str_digits :: nat where
  "max_str_digits = 4300"

definition parse_decimal :: "string \<Rightarrow> nat option" where
  "parse_decimal s =
     (case s of
        [] \<Rightarrow> None
      | c # cs \<Rightarrow>
          if is_digit c \<and> length (filter is_digit s) \<le> max_str_digits
          then parse_digits (digit_value c) cs else None)"

text \<open>
  \<open>int(s)\<close> for a string: surrounding whitespace is dropped, a sign may lead, the rest
  is a decimal literal; anything else raises \<open>ValueError\<close>.
\<close>

definition py_int :: "string \<Rightarrow> exn + int" where
  "py_int s =
     (case py_strip s of
        [] \<Rightarrow> Inl ValueError
      | c # cs \<Rightarrow>
          if c = CHR ''-'' then
            (case parse_decimal cs of None \<Rightarrow> Inl ValueError | Some n \<Rightarrow> Inr (- int n))
          else if c = CHR ''+'' then
            (case parse_decimal cs of None \<Rightarrow> Inl ValueError | Some n \<Rightarrow> Inr (int n))
          else
            (case parse_decimal (c # cs) of None \<Rightarrow> Inl ValueError | Some n \<Rightarrow> Inr (int n)))"


section \<open>The bot\<close>

text \<open>
  The module constants \<open>BOT_USERNAME\<close> and \<open>ADMIN_IDS\<close>, read once by \<open>load_config\<close>.
\<close>

record config =
  BOT_USERNAME :: string
  ADMIN_IDS :: "int list"

text \<open>An entry of \<open>pending_uploads\<close>: \<open>{'category_id': ..., 'files': [...]}\<close>.\<close>

record upload_info =
  ui_category_id :: string
  ui_files :: "file_info list"

text \<open>
  The state of \<open>bot_manager\<close>: the database behind \<open>bot_manager.db\<close> and the
  in-memory dict \<open>pending_uploads\<close>, keyed by user id.
\<close>

record state =
  db :: database
  pending_uploads :: "int \<rightharpoonup> upload_info"

text \<open>
  What a handler sends. The Persian wording stays with the source; each constructor is
  one of its messages, with the values that the message carries. A keyboard is the list
  of the \<open>callback_data\<close> of its buttons.
\<close>

datatype reply =
    NotAuthorized
  | WelcomeAdmin
  | WelcomeUser
  | CategoryNotFound
  | AdminMenu string nat "string list"
  | CategoryHasNoFiles
  | SendingFilesOf string
  | SendDocument string string
  | NewCategoryUsage
  | CategoryCreated string string string
  | CreateCategoryFailed
  | UploadUsage
  | UploadModeOn string
  | FileReceived "string option" nat
  | NoUploadInProgress
  | NoFilesUploaded
  | FilesAdded nat string
  | SaveFilesFailed
  | NoCategories
  | CategoriesList "(string \<times> nat \<times> string) list"
  | SendingFiles
  | AddModeOn
  | ChooseFileToDelete "(string option \<times> string) list"
  | FileNotFound
  | FileDeleted "string option"
  | DeleteFileFailed
  | ConfirmCategoryDeletion "string list"
  | CategoryDeleted string
  | DeleteCategoryFailed

text \<open>
  A handler either runs to its end, having sent its replies, or an exception of its own
  code (list indexing, \<open>int\<close>) leaves it; before such a \<open>raise\<close> the handlers below
  send no reply and change nothing. The awaited calls that deliver a reply are taken to
  succeed: what a failing delivery would raise, also after a change of the state, is not
  part of this model.
\<close>

datatype outcome = Replied "reply list" | Raised exn

definition is_admin :: "config \<Rightarrow> int \<Rightarrow> bool" where
  "is_admin cfg user_id = (user_id \<in> set (ADMIN_IDS cfg))"

definition generate_category_link :: "config \<Rightarrow> string \<Rightarrow> string" where
  "generate_category_link cfg category_id =
     ''https://t.me/'' @ BOT_USERNAME cfg @ ''?start=cat_'' @ category_id"

definition send_documents :: "file_info list \<Rightarrow> reply list" where
  "send_documents fis = map (\<lambda>fi. SendDocument (fi_file_id fi) (fi_caption fi)) fis"

definition handle_category_access :: "config \<Rightarrow> bool \<Rightarrow> state \<Rightarrow> int \<Rightarrow> string \<Rightarrow> state \<times> outcome" where
  "handle_category_access cfg storage_ok s user_id category_id =
     (case get_category storage_ok (db s) category_id of
        None \<Rightarrow> (s, Replied [CategoryNotFound])
      | Some cat \<Rightarrow>
          if is_admin cfg user_id then
            (s, Replied [AdminMenu (cat_name cat) (length (cat_files cat))
                           [''view_'' @ category_id, ''add_'' @ category_id,
                            ''delete_file_'' @ category_id, ''delete_cat_'' @ category_id]])
          else if cat_files cat = [] then (s, Replied [CategoryHasNoFiles])
          else (s, Replied (SendingFilesOf (cat_name cat) # send_documents (cat_files cat))))"

definition start :: "config \<Rightarrow> bool \<Rightarrow> state \<Rightarrow> int \<Rightarrow> string list \<Rightarrow> state \<times> outcome" where
  "start cfg storage_ok s user_id args =
     (if args \<noteq> [] \<and> startswith (hd args) ''cat_''
      then handle_category_access cfg storage_ok s user_id (drop 4 (hd args))
      else if is_admin cfg user_id then (s, Replied [WelcomeAdmin])
      else (s, Replied [WelcomeUser]))"

text \<open>
  \<open>new_category\<close>; \<open>uuid8\<close> stands for \<open>str(uuid.uuid4())[:8]\<close>, drawn by the call.
\<close>

definition new_category :: "config \<Rightarrow> bool \<Rightarrow> string \<Rightarrow> string \<Rightarrow> state \<Rightarrow> int \<Rightarrow> string list \<Rightarrow> state \<times> outcome" where
  "new_category cfg storage_ok now uuid8 s user_id args =
     (if \<not> is_admin cfg user_id then (s, Replied [NotAuthorized])
      else if length args = 0 then (s, Replied [NewCategoryUsage])
      else
        (let category_name = py_join '' '' args;
             category_id = uuid8;
             (success, d') = add_category storage_ok now (db s) category_id category_name user_id
         in if success
            then (s\<lparr>db := d'\<rparr>,
                  Replied [CategoryCreated category_name
                             (generate_category_link cfg category_id) category_id])
            else (s\<lparr>db := d'\<rparr>, Replied [CreateCategoryFailed])))"

definition upload_command :: "config \<Rightarrow> bool \<Rightarrow> state \<Rightarrow> int \<Rightarrow> string list \<Rightarrow> state \<times> outcome" where
  "upload_command cfg storage_ok s user_id args =
     (if \<not> is_admin cfg user_id then (s, Replied [NotAuthorized])
      else if length args = 0 then (s, Replied [UploadUsage])
      else
        (let category_id = hd args in
         case get_category storage_ok (db s) category_id of
           None \<Rightarrow> (s, Replied [CategoryNotFound])
         | Some cat \<Rightarrow>
             (s\<lparr>pending_uploads := (pending_uploads s)
                   (user_id \<mapsto> \<lparr>ui_category_id = category_id, ui_files = []\<rparr>)\<rparr>,
              Replied [UploadModeOn (cat_name cat)])))"

text \<open>
  \<open>handle_document\<close>: the document's \<open>file_id\<close>, \<open>file_name\<close>, \<open>file_size\<close> and the
  message's caption (\<open>caption or ''\<close>).
\<close>

definition handle_document :: "state \<Rightarrow> int \<Rightarrow> string \<Rightarrow> string option \<Rightarrow> int option \<Rightarrow> string option \<Rightarrow> state \<times> outcome" where
  "handle_document s user_id doc_file_id doc_file_name doc_file_size msg_caption =
     (case pending_uploads s user_id of
        None \<Rightarrow> (s, Replied [])
      | Some upload \<Rightarrow>
          (let fi = \<lparr>fi_file_id = doc_file_id, fi_file_name = doc_file_name,
                     fi_file_size = doc_file_size,
                     fi_caption = (case msg_caption of None \<Rightarrow> [] | Some c \<Rightarrow> c)\<rparr>;
               upload' = upload\<lparr>ui_files := ui_files upload @ [fi]\<rparr>
           in (s\<lparr>pending_uploads := (pending_uploads s)(user_id \<mapsto> upload')\<rparr>,
               Replied [FileReceived doc_file_name (length (ui_files upload'))])))"

definition finish_upload :: "config \<Rightarrow> bool \<Rightarrow> string \<Rightarrow> state \<Rightarrow> int \<Rightarrow> state \<times> outcome" where
  "finish_upload cfg storage_ok now s user_id =
     (case pending_uploads s user_id of
        None \<Rightarrow> (s, Replied [NoUploadInProgress])
      | Some upload \<Rightarrow>
          (let category_id = ui_category_id upload in
           if ui_files upload = [] then (s, Replied [NoFilesUploaded])
           else
             (let (success, d') =
                    add_files_to_category storage_ok now (db s) category_id (ui_files upload)
              in if success
                 then (s\<lparr>db := d', pending_uploads := (pending_uploads s)(user_id := None)\<rparr>,
                       Replied [FilesAdded (length (ui_files upload))
                                  (generate_category_link cfg category_id)])
                 else (s\<lparr>db := d'\<rparr>, Replied [SaveFilesFailed]))))"

definition categories_list :: "config \<Rightarrow> bool \<Rightarrow> state \<Rightarrow> int \<Rightarrow> state \<times> outcome" where
  "categories_list cfg storage_ok s user_id =
     (if \<not> is_admin cfg user_id then (s, Replied [NotAuthorized])
      else
        (let categories = get_categories storage_ok (db s) in
         if categories = [] then (s, Replied [NoCategories])
         else (s, Replied [CategoriesList
                 (map (\<lambda>(cat_id, cat_info).
                         (cat_name cat_info, length (cat_files cat_info),
                          generate_category_link cfg cat_id)) categories)])))"

subsection \<open>The inline buttons\<close>

text \<open>
  \<open>view_category_files\<close> announces the files and then loops over them with
  \<open>query.bot.send_document\<close>. The callback query of the library that the module is
  written for (\<open>Application.builder\<close>, \<open>ContextTypes\<close>) has no attribute \<open>bot\<close>: each
  turn of the loop raises \<open>AttributeError\<close> inside its \<open>try\<close>, which the \<open>except\<close> logs,
  and no document goes out.
\<close>

definition view_category_files :: "bool \<Rightarrow> state \<Rightarrow> string \<Rightarrow> state \<times> outcome" where
  "view_category_files storage_ok s category_id =
     (case get_category storage_ok (db s) category_id of
        None \<Rightarrow> (s, Replied [CategoryNotFound])
      | Some cat \<Rightarrow>
          if cat_files cat = [] then (s, Replied [CategoryHasNoFiles])
          else (s, Replied [SendingFiles]))"

definition start_adding_files :: "state \<Rightarrow> string \<Rightarrow> int \<Rightarrow> state \<times> outcome" where
  "start_adding_files s category_id user_id =
     (s\<lparr>pending_uploads := (pending_uploads s)
           (user_id \<mapsto> \<lparr>ui_category_id = category_id, ui_files = []\<rparr>)\<rparr>,
      Replied [AddModeOn])"

definition show_files_for_deletion :: "bool \<Rightarrow> state \<Rightarrow> string \<Rightarrow> state \<times> outcome" where
  "show_files_for_deletion storage_ok s category_id =
     (case get_category storage_ok (db s) category_id of
        None \<Rightarrow> (s, Replied [CategoryNotFound])
      | Some cat \<Rightarrow>
          if cat_files cat = [] then (s, Replied [CategoryHasNoFiles])
          else (s, Replied [ChooseFileToDelete
                  (map (\<lambda>(i, fi). (fi_file_name fi,
                                    ''del_file_'' @ category_id @ ''_'' @ str_nat i))
                       (enumerate 0 (cat_files cat)))]))"

text \<open>
  \<open>delete_file_from_category\<close> reads the category (first storage access), checks the
  index against the upper bound only, reads the file's name by Python indexing and
  then calls \<open>delete_file\<close> (second storage access).
\<close>

definition delete_file_from_category :: "bool \<Rightarrow> bool \<Rightarrow> state \<Rightarrow> string \<Rightarrow> int \<Rightarrow> state \<times> outcome" where
  "delete_file_from_category storage_ok storage_ok' s category_id file_index =
     (case get_category storage_ok (db s) category_id of
        None \<Rightarrow> (s, Replied [CategoryNotFound])
      | Some cat \<Rightarrow>
          if int (length (cat_files cat)) \<le> file_index then (s, Replied [FileNotFound])
          else
            (case py_index (cat_files cat) file_index of
               Inl e \<Rightarrow> (s, Raised e)
             | Inr fi \<Rightarrow>
                 (let deleted_file_name = fi_file_name fi;
                      (success, d') = delete_file storage_ok' (db s) category_id file_index
                  in if success then (s\<lparr>db := d'\<rparr>, Replied [FileDeleted deleted_file_name])
                     else (s\<lparr>db := d'\<rparr>, Replied [DeleteFileFailed]))))"

definition confirm_category_deletion :: "state \<Rightarrow> string \<Rightarrow> state \<times> outcome" where
  "confirm_category_deletion s category_id =
     (s, Replied [ConfirmCategoryDeletion [''confirm_del_cat_'' @ category_id, ''cancel'']])"

text \<open>
  The handler \<open>delete_category(query, category_id)\<close> of the module, named apart from
  the method of \<open>DatabaseManager\<close> that it calls.
\<close>

definition delete_category_button :: "bool \<Rightarrow> bool \<Rightarrow> state \<Rightarrow> string \<Rightarrow> state \<times> outcome" where
  "delete_category_button storage_ok storage_ok' s category_id =
     (case get_category storage_ok (db s) category_id of
        None \<Rightarrow> (s, Replied [CategoryNotFound])
      | Some cat \<Rightarrow>
          (let category_name = cat_name cat;
               (success, d') = delete_category storage_ok' (db s) category_id
           in if success then (s\<lparr>db := d'\<rparr>, Replied [CategoryDeleted category_name])
              else (s\<lparr>db := d'\<rparr>, Replied [DeleteCategoryFailed])))"

text \<open>
  \<open>button_handler\<close>: the admin check, then the chain of \<open>startswith\<close> tests in the
  source's order. In the last branch \<open>parts[1]\<close> and \<open>int(...)\<close> can raise; data that
  matches no branch falls through the chain.
\<close>

definition button_handler :: "config \<Rightarrow> bool \<Rightarrow> bool \<Rightarrow> state \<Rightarrow> int \<Rightarrow> string \<Rightarrow> state \<times> outcome" where
  "button_handler cfg storage_ok storage_ok' s user_id data =
     (if \<not> is_admin cfg user_id then (s, Replied [NotAuthorized])
      else if startswith data ''view_'' then view_category_files storage_ok s (drop 5 data)
      else if startswith data ''add_'' then start_adding_files s (drop 4 data) user_id
      else if startswith data ''delete_file_'' then show_files_for_deletion storage_ok s (drop 12 data)
      else if startswith data ''delete_cat_'' then confirm_category_deletion s (drop 11 data)
      else if startswith data ''confirm_del_cat_''
        then delete_category_button storage_ok storage_ok' s (drop 16 data)
      else if startswith data ''del_file_'' then
        (let parts = split1 CHR ''_'' (drop 9 data) in
         case py_index parts 0 of
           Inl e \<Rightarrow> (s, Raised e)
         | Inr category_id \<Rightarrow>
             (case py_index parts 1 of
                Inl e \<Rightarrow> (s, Raised e)
              | Inr index_text \<Rightarrow>
                  (case py_int index_text of
                     Inl e \<Rightarrow> (s, Raised e)
                   | Inr file_index \<Rightarrow>
                       delete_file_from_category storage_ok storage_ok' s category_id file_index)))
      else (s, Replied []))"

subsection \<open>The running bot\<close>

text \<open>
  The updates that \<open>main\<close> registers handlers for, each with what the outside supplies
  during the call: the sender, the arguments or payload, the clock, the drawn id, and
  whether the storage works at each access. The application handles one update after
  the other.
\<close>

datatype update =
    Cmd_start int "string list" bool
  | Cmd_new_category int "string list" string string bool
  | Cmd_upload int "string list" bool
  | Cmd_finish_upload int string bool
  | Cmd_categories int bool
  | Document_message int string "string option" "int option" "string option"
  | Callback_query int string bool bool

fun dispatch :: "config \<Rightarrow> state \<Rightarrow> update \<Rightarrow> state \<times> outcome" where
  "dispatch cfg s (Cmd_start u args ok) = start cfg ok s u args"
| "dispatch cfg s (Cmd_new_category u args now uuid8 ok) = new_category cfg ok now uuid8 s u args"
| "dispatch cfg s (Cmd_upload u args ok) = upload_command cfg ok s u args"
| "dispatch cfg s (Cmd_finish_upload u now ok) = finish_upload cfg ok now s u"
| "dispatch cfg s (Cmd_categories u ok) = categories_list cfg ok s u"
| "dispatch cfg s (Document_message u fid fname fsize cap) = handle_document s u fid fname fsize cap"
| "dispatch cfg s (Callback_query u data ok ok') = button_handler cfg ok ok' s u data"

text \<open>
  \<open>FileManagerBot.__init__\<close>: the database as \<open>init_database\<close> leaves it and no
  pending upload.
\<close>

definition initial_state :: state where
  "initial_state = \<lparr>db = init_database, pending_uploads = Map.empty\<rparr>"

text \<open>
  The states that the bot can be in: the initial one, one more update each time, and a
  restart of the process, which keeps the database file and starts with an empty
  \<open>pending_uploads\<close>.
\<close>

inductive reachable :: "config \<Rightarrow> state \<Rightarrow> bool" for cfg :: config where
  reachable_init: "reachable cfg initial_state"
| reachable_step: "reachable cfg s \<Longrightarrow> reachable cfg (fst (dispatch cfg s upd))"
| reachable_restart: "reachable cfg s \<Longrightarrow> reachable cfg (s\<lparr>pending_uploads := Map.empty\<rparr>)"

text \<open>
  The databases that calls of the methods of \<open>DatabaseManager\<close> can produce, whoever
  calls them and with whatever arguments.
\<close>

inductive db_reachable :: "database \<Rightarrow> bool" where
  db_init: "db_reachable init_database"
| db_add_category: "db_reachable d \<Longrightarrow> db_reachable (snd (add_category ok now d cid name by))"
| db_add_file: "db_reachable d \<Longrightarrow> db_reachable (snd (add_file_to_category ok now d cid fi))"
| db_add_files: "db_reachable d \<Longrightarrow> db_reachable (snd (add_files_to_category ok now d cid fis))"
| db_delete_file: "db_reachable d \<Longrightarrow> db_reachable (snd (delete_file ok d cid i))"
| db_delete_category: "db_reachable d \<Longrightarrow> db_reachable (snd (delete_category ok d cid))"


section \<open>Notions used in the properties\<close>

text \<open>The row that a successful insert of a file dict stores under a given id.\<close>

definition stored_row :: "int \<Rightarrow> string \<Rightarrow> string \<Rightarrow> file_info \<Rightarrow> file_row" where
  "stored_row i category_id upload_date fi =
     \<lparr>f_id = i, f_category_id = category_id, f_file_id = fi_file_id fi,
      f_file_name = the (fi_file_name fi), f_file_size = the (fi_file_size fi),
      f_caption = Some (fi_caption fi), f_upload_date = upload_date\<rparr>"

text \<open>The rows that a successful batch stores, numbered from \<open>i\<close> on.\<close>

fun stored_rows :: "int \<Rightarrow> string \<Rightarrow> string \<Rightarrow> file_info list \<Rightarrow> file_row list" where
  "stored_rows i category_id upload_date [] = []"
| "stored_rows i category_id upload_date (fi # fis) =
     stored_row i category_id upload_date fi # stored_rows (i + 1) category_id upload_date fis"

text \<open>The stored order of \<open>files\<close> is strictly ascending in \<open>id\<close>.\<close>

definition ids_ascending :: "database \<Rightarrow> bool" where
  "ids_ascending d = sorted_wrt (<) (map f_id (db_files d))"

text \<open>
  The reading of the specification in which a batch of \<open>n\<close> files gets the sequence
  values that follow the largest one of its own category.
\<close>

definition category_max :: "database \<Rightarrow> string \<Rightarrow> int" where
  "category_max d category_id = fold max (map f_id (select_files d category_id)) 0"

definition continues_category_max :: "database \<Rightarrow> string \<Rightarrow> nat \<Rightarrow> database \<Rightarrow> bool" where
  "continues_category_max d category_id n d' =
     (map f_id (select_files_order_by_id d' category_id) =
      map f_id (select_files_order_by_id d category_id) @
      [category_max d category_id + 1 .. category_max d category_id + int n])"

text \<open>Every key of \<open>pending_uploads\<close> is the id of an admin.\<close>

definition sessions_of_admins :: "config \<Rightarrow> state \<Rightarrow> bool" where
  "sessions_of_admins cfg s = (dom (pending_uploads s) \<subseteq> set (ADMIN_IDS cfg))"

text \<open>The callback data that some branch of \<open>button_handler\<close> takes up.\<close>

definition known_prefix :: "string \<Rightarrow> bool" where
  "known_prefix data =
     (startswith data ''view_'' \<or> startswith data ''add_'' \<or> startswith data ''delete_file_'' \<or>
      startswith data ''delete_cat_'' \<or> startswith data ''confirm_del_cat_'' \<or>
      startswith data ''del_file_'')"

text \<open>The number that a string of decimal digits denotes, continuing from \<open>acc\<close>.\<close>

definition digits_value :: "string \<Rightarrow> nat \<Rightarrow> nat" where
  "digits_value ds acc = fold (\<lambda>c a. 10 * a + digit_value c) ds acc"


section \<open>Scenarios\<close>

text \<open>
  Concrete values for the scenarios of the specification: one admin (1001), one other
  user (2002), the category \<open>Docs\<close> with id \<open>a1b2c3d4\<close> and a few documents, one of
  them without a file name.
\<close>

definition the_config :: config where
  "the_config = \<lparr>BOT_USERNAME = ''files_bot'', ADMIN_IDS = [1001]\<rparr>"

definition doc_a :: file_info where
  "doc_a = \<lparr>fi_file_id = ''FA'', fi_file_name = Some ''a.txt'', fi_file_size = Some 10,
            fi_caption = ''first''\<rparr>"

definition doc_b :: file_info where
  "doc_b = \<lparr>fi_file_id = ''FB'', fi_file_name = Some ''b.txt'', fi_file_size = Some 20,
            fi_caption = []\<rparr>"

definition doc_c :: file_info where
  "doc_c = \<lparr>fi_file_id = ''FC'', fi_file_name = Some ''c.txt'', fi_file_size = Some 30,
            fi_caption = ''third''\<rparr>"

definition doc_unnamed :: file_info where
  "doc_unnamed = \<lparr>fi_file_id = ''FU'', fi_file_name = None, fi_file_size = Some 40,
                  fi_caption = []\<rparr>"

definition docs_category :: category_row where
  "docs_category = \<lparr>c_id = ''a1b2c3d4'', c_name = ''Docs'', c_created_by = 1001,
                    c_created_at = ''t0''\<rparr>"

subsection \<open>Databases\<close>

text \<open>\<open>Docs\<close> is created and two documents are committed to it.\<close>

definition docs_db :: database where
  "docs_db =
     snd (add_files_to_category True ''t1''
            (snd (add_category True ''t0'' init_database ''a1b2c3d4'' ''Docs'' 1001))
            ''a1b2c3d4'' [doc_a, doc_b])"

text \<open>A second category, \<open>Pics\<close>, gets one document after \<open>Docs\<close> got its two.\<close>

definition two_categories_db :: database where
  "two_categories_db =
     snd (add_files_to_category True ''t3''
            (snd (add_category True ''t2'' docs_db ''0f0f0f0f'' ''Pics'' 1001))
            ''0f0f0f0f'' [doc_c])"

text \<open>
  A deletion between two insertions: \<open>a.txt\<close> (position 0 of \<open>Docs\<close>) is deleted and
  then \<open>c.txt\<close> is committed.
\<close>

definition interleaved_db :: database where
  "interleaved_db =
     snd (add_files_to_category True ''t3''
            (snd (delete_file True docs_db ''a1b2c3d4'' 0)) ''a1b2c3d4'' [doc_c])"

subsection \<open>States of the bot\<close>

text \<open>
  \<open>Docs\<close> is in the database; nobody uploads, or the admin has an upload pending
  whose second document has no file name.
\<close>

definition docs_state :: state where
  "docs_state = \<lparr>db = docs_db, pending_uploads = Map.empty\<rparr>"

definition collecting_state :: state where
  "collecting_state =
     \<lparr>db = docs_db,
      pending_uploads = [1001 \<mapsto> \<lparr>ui_category_id = ''a1b2c3d4'',
                                  ui_files = [doc_c, doc_unnamed]\<rparr>]\<rparr>"

text \<open>The admin creates \<open>Docs\<close> and starts an upload for it with \<open>/upload\<close>.\<close>

definition uploading_state :: state where
  "uploading_state =
     fst (dispatch the_config
            (fst (dispatch the_config initial_state
                    (Cmd_new_category 1001 [''Docs''] ''t0'' ''a1b2c3d4'' True)))
            (Cmd_upload 1001 [''a1b2c3d4''] True))"

text \<open>
  The scenario of the specification: after \<open>/upload\<close> the admin sends \<open>a.txt\<close> and
  \<open>b.txt\<close> and commits them with \<open>/finish_upload\<close>.
\<close>

definition committed_state :: state where
  "committed_state =
     fst (dispatch the_config
       (fst (dispatch the_config
          (fst (dispatch the_config uploading_state
                  (Document_message 1001 ''FA'' (Some ''a.txt'') (Some 10) (Some ''first''))))
          (Document_message 1001 ''FB'' (Some ''b.txt'') (Some 20) None)))
       (Cmd_finish_upload 1001 ''t1'' True))"

text \<open>
  The admin starts an upload for \<open>Docs\<close> with \<open>/upload\<close>, deletes the category
  with its confirm button, then sends \<open>a.txt\<close> and commits.
\<close>

definition orphan_state :: state where
  "orphan_state =
     fst (dispatch the_config
       (fst (dispatch the_config
          (fst (dispatch the_config uploading_state
                  (Callback_query 1001 ''confirm_del_cat_a1b2c3d4'' True True)))
          (Document_message 1001 ''FA'' (Some ''a.txt'') (Some 10) (Some ''first''))))
       (Cmd_finish_upload 1001 ''t1'' True))"


section \<open>Properties of the repository\<close>

lemma docs_db_eq:
  "docs_db = \<lparr>db_categories = [docs_category],
              db_files = [stored_row 1 ''a1b2c3d4'' ''t1'' doc_a,
                          stored_row 2 ''a1b2c3d4'' ''t1'' doc_b],
              db_seq = 2\<rparr>"
  by code_simp

lemma docs_db_reachable: "db_reachable docs_db"
  unfolding docs_db_def by (intro db_add_files db_add_category db_init)

subsection \<open>Inserting rows\<close>

lemma fold_max_ge_init: "(a::int) \<le> fold max xs a"
  by (induction xs arbitrary: a) (auto intro: order_trans [OF max.cobounded2])

lemma fold_max_ge_elem: "x \<in> set xs \<Longrightarrow> (x::int) \<le> fold max xs a"
proof (induction xs arbitrary: a)
  case Nil
  then show ?case by simp
next
  case (Cons y ys)
  show ?case
  proof (cases "x = y")
    case True
    have "y \<le> max y a" by simp
    also have "\<dots> \<le> fold max ys (max y a)" by (rule fold_max_ge_init)
    finally show ?thesis using True by simp
  next
    case False
    with Cons show ?thesis by simp
  qed
qed

lemma fold_max_bounded: "\<forall>x\<in>set xs. x \<le> a \<Longrightarrow> fold max xs (a::int) = a"
  by (induction xs) (auto simp: max_absorb2)

lemma next_rowid_above_rows: "r \<in> set (db_files d) \<Longrightarrow> f_id r < next_rowid d"
  using fold_max_ge_elem [of "f_id r" "map f_id (db_files d)" "db_seq d"]
  by (simp add: next_rowid_def)

lemma next_rowid_above_seq: "db_seq d < next_rowid d"
  using fold_max_ge_init [of "db_seq d" "map f_id (db_files d)"]
  by (simp add: next_rowid_def)

lemma insort_key_last: "\<forall>y\<in>set xs. f y < f x \<Longrightarrow> insort_key f x xs = xs @ [x]"
  by (induction xs) auto

lemma f_id_stored_row [simp]: "f_id (stored_row i cid t fi) = i"
  by (simp add: stored_row_def)

lemma f_category_id_stored_row [simp]: "f_category_id (stored_row i cid t fi) = cid"
  by (simp add: stored_row_def)

lemma insert_file_Inr:
  assumes "insert_file cid t fi d = Inr d'"
  shows "d' = d\<lparr>db_files := db_files d @ [stored_row (next_rowid d) cid t fi],
                 db_seq := next_rowid d\<rparr>"
  using assms
  by (auto simp: insert_file_def stored_row_def insort_key_last next_rowid_above_rows
           split: if_splits option.splits)

lemma next_rowid_after_insert:
  "next_rowid (d\<lparr>db_files := db_files d @ [stored_row (next_rowid d) cid t fi],
                 db_seq := next_rowid d\<rparr>) = next_rowid d + 1"
proof -
  have "\<forall>x\<in>set (map f_id (db_files d)). x \<le> next_rowid d"
    using next_rowid_above_rows [of _ d] by (auto simp: less_imp_le)
  then have "fold max (map f_id (db_files d)) (next_rowid d) = next_rowid d"
    by (rule fold_max_bounded)
  then show ?thesis
    by (simp add: next_rowid_def [of "d\<lparr>db_files := _, db_seq := _\<rparr>"])
qed

lemma insert_files_Inr:
  "insert_files cid t fis d = Inr d' \<Longrightarrow>
   d' = d\<lparr>db_files := db_files d @ stored_rows (next_rowid d) cid t fis,
          db_seq := (if fis = [] then db_seq d else next_rowid d + int (length fis) - 1)\<rparr>"
proof (induction fis arbitrary: d)
  case Nil
  then show ?case by simp
next
  case (Cons fi fis)
  from Cons.prems obtain d1 where
    one: "insert_file cid t fi d = Inr d1" and rest: "insert_files cid t fis d1 = Inr d'"
    by (auto split: sum.splits)
  have d1: "d1 = d\<lparr>db_files := db_files d @ [stored_row (next_rowid d) cid t fi],
                    db_seq := next_rowid d\<rparr>"
    using one by (rule insert_file_Inr)
  have n1: "next_rowid d1 = next_rowid d + 1"
    unfolding d1 by (rule next_rowid_after_insert)
  show ?case
    using Cons.IH [OF rest] by (simp add: n1) (simp add: d1)
qed

lemma insert_file_Inr_complete:
  assumes "insert_file cid t fi d = Inr d'"
  shows "fi_file_name fi \<noteq> None \<and> fi_file_size fi \<noteq> None"
  using assms by (auto simp: insert_file_def split: if_splits option.splits)

lemma insert_files_Inr_complete:
  "insert_files cid t fis d = Inr d' \<Longrightarrow>
   \<forall>fi\<in>set fis. fi_file_name fi \<noteq> None \<and> fi_file_size fi \<noteq> None"
proof (induction fis arbitrary: d)
  case Nil
  then show ?case by simp
next
  case (Cons fi fis)
  from Cons.prems obtain d1 where
    one: "insert_file cid t fi d = Inr d1" and rest: "insert_files cid t fis d1 = Inr d'"
    by (auto split: sum.splits)
  from insert_file_Inr_complete [OF one] Cons.IH [OF rest] show ?case by simp
qed

lemma f_id_stored_rows: "map f_id (stored_rows i cid t fis) = [i .. i + int (length fis) - 1]"
proof (induction fis arbitrary: i)
  case Nil
  then show ?case by simp
next
  case (Cons fi fis)
  have "[i .. i + int (length (fi # fis)) - 1] = i # [i + 1 .. i + 1 + int (length fis) - 1]"
    by (subst upto.simps) (simp add: algebra_simps)
  with Cons.IH [of "i + 1"] show ?case by simp
qed

lemma category_stored_rows: "r \<in> set (stored_rows i cid t fis) \<Longrightarrow> f_category_id r = cid"
  by (induction fis arbitrary: i) auto

subsection \<open>The order of the files that a read reports\<close>

lemma strictly_ascending_upto: "sorted_wrt (<) [i .. (j::int)]"
  by (simp add: strict_sorted_iff)

lemma ids_ascending_init: "ids_ascending init_database"
  by (simp add: ids_ascending_def init_database_def)

lemma ids_ascending_insert_files:
  assumes "ids_ascending d" and "insert_files cid t fis d = Inr d'"
  shows "ids_ascending d'"
proof -
  have "\<forall>x\<in>set (db_files d). \<forall>y\<in>set [next_rowid d .. next_rowid d + int (length fis) - 1].
          f_id x < y"
    using next_rowid_above_rows [of _ d] by fastforce
  then show ?thesis
    using assms(1) insert_files_Inr [OF assms(2)]
    by (simp add: ids_ascending_def sorted_wrt_append f_id_stored_rows strictly_ascending_upto)
qed

lemma ids_ascending_insert_file:
  assumes "ids_ascending d" and "insert_file cid t fi d = Inr d'"
  shows "ids_ascending d'"
  using ids_ascending_insert_files [of d cid t "[fi]" d'] assms by simp

lemma ids_ascending_filter:
  "ids_ascending d \<Longrightarrow> ids_ascending (d\<lparr>db_files := filter P (db_files d)\<rparr>)"
  by (simp add: ids_ascending_def sorted_wrt_map sorted_wrt_filter)

lemma ids_ascending_add_category:
  "ids_ascending d \<Longrightarrow> ids_ascending (snd (add_category ok now d cid name by))"
  by (auto simp: add_category_def insert_category_def ids_ascending_def
           split: sum.splits if_splits)

lemma ids_ascending_add_file:
  "ids_ascending d \<Longrightarrow> ids_ascending (snd (add_file_to_category ok now d cid fi))"
  by (auto simp: add_file_to_category_def split: sum.splits
           intro: ids_ascending_insert_file)

lemma ids_ascending_add_files:
  "ids_ascending d \<Longrightarrow> ids_ascending (snd (add_files_to_category ok now d cid fis))"
  by (auto simp: add_files_to_category_def split: sum.splits
           intro: ids_ascending_insert_files)

lemma ids_ascending_delete_file:
  "ids_ascending d \<Longrightarrow> ids_ascending (snd (delete_file ok d cid i))"
  by (auto simp: delete_file_def Let_def split: sum.splits intro: ids_ascending_filter)

lemma ids_ascending_delete_category:
  "ids_ascending d \<Longrightarrow> ids_ascending (snd (delete_category ok d cid))"
  by (auto simp: delete_category_def ids_ascending_def sorted_wrt_map sorted_wrt_filter
           split: sum.splits)

lemma db_reachable_ids_ascending: "db_reachable d \<Longrightarrow> ids_ascending d"
  by (induction rule: db_reachable.induct)
     (simp_all add: ids_ascending_init ids_ascending_add_category ids_ascending_add_file
        ids_ascending_add_files ids_ascending_delete_file ids_ascending_delete_category)

lemma select_ascending:
  assumes "ids_ascending d"
  shows "sorted_wrt (<) (map f_id (select_files d cid))"
  using assms by (simp add: ids_ascending_def select_files_def sorted_wrt_map sorted_wrt_filter)

lemma order_by_id_is_stored_order:
  assumes "ids_ascending d"
  shows "select_files_order_by_id d cid = select_files d cid"
proof -
  have "sorted (map f_id (select_files d cid))"
    using select_ascending [OF assms] by (rule strict_sorted_imp_sorted)
  then show ?thesis
    by (simp add: select_files_order_by_id_def select_files_def sort_key_id_if_sorted)
qed

text \<open>Every entry of the dict that \<open>get_categories\<close> builds carries the files of its own key.\<close>

lemma set_update_subset: "set (AList.update k v al) \<subseteq> insert (k, v) (set al)"
  by (induction al) auto

lemma fold_update_entries:
  assumes "\<forall>(k, v)\<in>set acc. P k v" and "\<forall>c\<in>set cs. P (key c) (val c)"
  shows "\<forall>(k, v)\<in>set (fold (\<lambda>c acc. AList.update (key c) (val c) acc) cs acc). P k v"
  using assms
proof (induction cs arbitrary: acc)
  case Nil
  then show ?case by simp
next
  case (Cons c cs)
  have "\<forall>(k, v)\<in>set (AList.update (key c) (val c) acc). P k v"
    using Cons.prems set_update_subset [of "key c" "val c" acc] by auto
  with Cons show ?case by simp
qed

lemma get_categories_files:
  assumes "(cid, cat) \<in> set (get_categories ok d)"
  shows "cat_files cat = map row_to_dict (select_files d cid)"
proof (cases ok)
  case False
  with assms show ?thesis by (simp add: get_categories_def connect_def)
next
  case True
  let ?val = "\<lambda>c. \<lparr>cat_name = c_name c,
                      cat_files = map row_to_dict (select_files d (c_id c)),
                      cat_created_by = c_created_by c,
                      cat_created_at = c_created_at c\<rparr>"
  have "\<forall>(k, v)\<in>set (fold (\<lambda>c acc. AList.update (c_id c) (?val c) acc) (db_categories d) []).
          cat_files v = map row_to_dict (select_files d k)"
    by (rule fold_update_entries) simp_all
  with assms True show ?thesis
    by (auto simp: get_categories_def connect_def)
qed

lemma get_category_files:
  assumes "get_category ok d cid = Some cat"
  shows "cat_files cat = map row_to_dict (select_files d cid)"
  using assms get_categories_files [of cid cat ok d]
  by (auto simp: get_category_def dest: map_of_SomeD)

lemma select_after_add_files:
  assumes "ids_ascending d" and "add_files_to_category ok now d cid fis = (True, d')"
  shows "select_files_order_by_id d' cid =
         select_files_order_by_id d cid @ stored_rows (next_rowid d) cid now fis"
proof -
  from assms(2) have ins: "insert_files cid now fis d = Inr d'"
    by (auto simp: add_files_to_category_def split: sum.splits)
  have asc': "ids_ascending d'"
    using assms(1) ins by (rule ids_ascending_insert_files)
  have own: "filter (\<lambda>r. f_category_id r = cid) (stored_rows (next_rowid d) cid now fis) =
        stored_rows (next_rowid d) cid now fis"
    by (simp add: category_stored_rows)
  have files: "db_files d' = db_files d @ stored_rows (next_rowid d) cid now fis"
    using insert_files_Inr [OF ins] by simp
  have "select_files_order_by_id d' cid = select_files d' cid"
    using asc' by (rule order_by_id_is_stored_order)
  also have "\<dots> = select_files d cid @ stored_rows (next_rowid d) cid now fis"
    by (simp add: select_files_def files own)
  also have "select_files d cid = select_files_order_by_id d cid"
    using assms(1) by (rule order_by_id_is_stored_order [symmetric])
  finally show ?thesis .
qed

lemma select_after_delete_file:
  assumes "ids_ascending d" and "delete_file ok d cid i = (True, d')"
  shows "\<exists>x. \<forall>c. select_files_order_by_id d' c =
                  filter (\<lambda>r. f_id r \<noteq> x) (select_files_order_by_id d c)"
proof -
  from assms(2) obtain x where d': "d' = d\<lparr>db_files := filter (\<lambda>r. f_id r \<noteq> x) (db_files d)\<rparr>"
    by (auto simp: delete_file_def Let_def split: sum.splits if_splits)
  have asc': "ids_ascending d'"
    unfolding d' using assms(1) by (rule ids_ascending_filter)
  have "select_files_order_by_id d' c =
        filter (\<lambda>r. f_id r \<noteq> x) (select_files_order_by_id d c)" for c
  proof -
    have "select_files_order_by_id d' c = select_files d' c"
      using asc' by (rule order_by_id_is_stored_order)
    also have "\<dots> = filter (\<lambda>r. f_id r \<noteq> x) (select_files d c)"
      by (auto simp: select_files_def d' intro: filter_cong)
    also have "select_files d c = select_files_order_by_id d c"
      using assms(1) by (rule order_by_id_is_stored_order [symmetric])
    finally show ?thesis .
  qed
  then show ?thesis by blast
qed

text \<open>
  Claim C1. In every database that the methods of \<open>DatabaseManager\<close> can produce,
  the files that \<open>get_categories\<close> and \<open>get_category\<close> report for a category are
  its rows by ascending \<open>id\<close> (what \<open>ORDER BY id\<close> would give), and these ids are
  strictly ascending. This is the order of insertion: a committed batch comes after
  everything the category held, in the order of the batch, and a deletion takes a row
  out without moving the others.
\<close>

theorem reads_in_ascending_sequence_order:
  assumes "db_reachable d"
  shows "(\<forall>cid cat. (cid, cat) \<in> set (get_categories ok d) \<or> get_category ok d cid = Some cat \<longrightarrow>
            cat_files cat = map row_to_dict (select_files_order_by_id d cid)) \<and>
         (\<forall>cid. sorted_wrt (<) (map f_id (select_files_order_by_id d cid))) \<and>
         (\<forall>now cid fis d'. add_files_to_category ok now d cid fis = (True, d') \<longrightarrow>
            select_files_order_by_id d' cid =
            select_files_order_by_id d cid @ stored_rows (next_rowid d) cid now fis) \<and>
         (\<forall>cid i d'. delete_file ok d cid i = (True, d') \<longrightarrow>
            (\<exists>x. \<forall>c. select_files_order_by_id d' c =
                       filter (\<lambda>r. f_id r \<noteq> x) (select_files_order_by_id d c)))"
proof -
  have asc: "ids_ascending d"
    using assms by (rule db_reachable_ids_ascending)
  have reads: "\<forall>cid cat. (cid, cat) \<in> set (get_categories ok d) \<or> get_category ok d cid = Some cat \<longrightarrow>
            cat_files cat = map row_to_dict (select_files_order_by_id d cid)"
    using get_categories_files get_category_files
    by (auto simp: order_by_id_is_stored_order [OF asc])
  have ascending: "\<forall>cid. sorted_wrt (<) (map f_id (select_files_order_by_id d cid))"
    using select_ascending [OF asc] by (simp add: order_by_id_is_stored_order [OF asc])
  have appended: "\<forall>now cid fis d'. add_files_to_category ok now d cid fis = (True, d') \<longrightarrow>
            select_files_order_by_id d' cid =
            select_files_order_by_id d cid @ stored_rows (next_rowid d) cid now fis"
    using select_after_add_files [OF asc] by blast
  have deleted: "\<forall>cid i d'. delete_file ok d cid i = (True, d') \<longrightarrow>
            (\<exists>x. \<forall>c. select_files_order_by_id d' c =
                       filter (\<lambda>r. f_id r \<noteq> x) (select_files_order_by_id d c))"
    using select_after_delete_file [OF asc] by blast
  from reads ascending appended deleted show ?thesis by blast
qed

lemma interleaved_db_reachable: "db_reachable interleaved_db"
  unfolding interleaved_db_def
  by (intro db_add_files db_delete_file docs_db_reachable)

theorem reads_in_ascending_sequence_order_witness:
  "db_reachable interleaved_db \<and>
   get_category True interleaved_db ''a1b2c3d4'' =
     Some \<lparr>cat_name = ''Docs'', cat_files = [doc_b, doc_c], cat_created_by = 1001,
           cat_created_at = ''t0''\<rparr> \<and>
   map row_to_dict (select_files_order_by_id interleaved_db ''a1b2c3d4'') = [doc_b, doc_c] \<and>
   map f_id (select_files_order_by_id interleaved_db ''a1b2c3d4'') = [2, 3] \<and>
   sorted_wrt (<) (map f_id (select_files_order_by_id interleaved_db ''a1b2c3d4''))"
proof -
  note inst = reads_in_ascending_sequence_order [OF interleaved_db_reachable, of True]
  have got: "get_category True interleaved_db ''a1b2c3d4'' =
     Some \<lparr>cat_name = ''Docs'', cat_files = [doc_b, doc_c], cat_created_by = 1001,
           cat_created_at = ''t0''\<rparr>"
    by code_simp
  have ids: "map f_id (select_files_order_by_id interleaved_db ''a1b2c3d4'') = [2, 3]"
    by code_simp
  from inst got have "[doc_b, doc_c] =
      map row_to_dict (select_files_order_by_id interleaved_db ''a1b2c3d4'')"
    by fastforce
  moreover from inst
  have "sorted_wrt (<) (map f_id (select_files_order_by_id interleaved_db ''a1b2c3d4''))"
    by blast
  ultimately show ?thesis
    using interleaved_db_reachable got ids by simp
qed

subsection \<open>Appending a batch\<close>

text \<open>
  Claim C2, as stated, at a concrete input. \<open>Docs\<close> holds the ids 1 and 2 and
  \<open>Pics\<close> the id 3. A batch of two files for \<open>Docs\<close> is stored under 4 and 5: the
  counter of \<open>id\<close> is one for the whole table, so the new values do not continue from
  the largest value of \<open>Docs\<close>, which is 2.
\<close>

theorem append_skips_past_other_categories:
  "map f_id (select_files_order_by_id two_categories_db ''a1b2c3d4'') = [1, 2] \<and>
   category_max two_categories_db ''a1b2c3d4'' = 2 \<and>
   fst (add_files_to_category True ''t4'' two_categories_db ''a1b2c3d4'' [doc_c, doc_a]) = True \<and>
   map f_id (select_files_order_by_id
     (snd (add_files_to_category True ''t4'' two_categories_db ''a1b2c3d4'' [doc_c, doc_a]))
     ''a1b2c3d4'') = [1, 2, 4, 5] \<and>
   \<not> continues_category_max two_categories_db ''a1b2c3d4'' 2
       (snd (add_files_to_category True ''t4'' two_categories_db ''a1b2c3d4'' [doc_c, doc_a]))"
  by code_simp

text \<open>
  Claim C2, amended. For a non-empty batch, \<open>add_files_to_category\<close> either returns
  \<open>True\<close>, and then the table is the old one followed by one row per file, in the order
  of the batch and each with a name and a size, under consecutive ids that start at
  \<open>next_rowid\<close>, above every id that the table holds or has handed out; or it returns
  \<open>False\<close> and the database is the one before the call.
\<close>

theorem add_files_all_or_nothing:
  assumes "fis \<noteq> []"
  shows "(add_files_to_category ok now d cid fis =
            (True, d\<lparr>db_files := db_files d @ stored_rows (next_rowid d) cid now fis,
                     db_seq := next_rowid d + int (length fis) - 1\<rparr>) \<and>
          map f_id (stored_rows (next_rowid d) cid now fis) =
            [next_rowid d .. next_rowid d + int (length fis) - 1] \<and>
          (\<forall>r\<in>set (db_files d). f_id r < next_rowid d) \<and> db_seq d < next_rowid d \<and>
          (\<forall>fi\<in>set fis. fi_file_name fi \<noteq> None \<and> fi_file_size fi \<noteq> None))
         \<or> add_files_to_category ok now d cid fis = (False, d)"
proof (cases "connect ok")
  case (Inl e)
  then show ?thesis by (simp add: add_files_to_category_def)
next
  case (Inr u)
  show ?thesis
  proof (cases "insert_files cid now fis d")
    case (Inl e)
    with Inr show ?thesis by (simp add: add_files_to_category_def)
  next
    case inserted: (Inr d')
    have "d' = d\<lparr>db_files := db_files d @ stored_rows (next_rowid d) cid now fis,
                   db_seq := next_rowid d + int (length fis) - 1\<rparr>"
      using insert_files_Inr [OF inserted] assms by simp
    with Inr inserted insert_files_Inr_complete [OF inserted] show ?thesis
      by (simp add: add_files_to_category_def f_id_stored_rows next_rowid_above_rows
            next_rowid_above_seq)
  qed
qed

theorem add_files_all_or_nothing_witness:
  "[doc_c, doc_a] \<noteq> [] \<and>
   add_files_to_category True ''t4'' two_categories_db ''a1b2c3d4'' [doc_c, doc_a] =
     (True, two_categories_db\<lparr>db_files := db_files two_categories_db @
                                  [stored_row 4 ''a1b2c3d4'' ''t4'' doc_c,
                                   stored_row 5 ''a1b2c3d4'' ''t4'' doc_a],
                                db_seq := 5\<rparr>) \<and>
   [doc_a, doc_unnamed] \<noteq> [] \<and>
   add_files_to_category True ''t4'' two_categories_db ''a1b2c3d4'' [doc_a, doc_unnamed] =
     (False, two_categories_db)"
proof -
  have ne1: "[doc_c, doc_a] \<noteq> []" and ne2: "[doc_a, doc_unnamed] \<noteq> []" by simp_all
  have n: "next_rowid two_categories_db = 4" by code_simp
  have ok1: "fst (add_files_to_category True ''t4'' two_categories_db ''a1b2c3d4'' [doc_c, doc_a])"
    by code_simp
  have ko2: "\<not> fst (add_files_to_category True ''t4'' two_categories_db ''a1b2c3d4''
                      [doc_a, doc_unnamed])"
    by code_simp
  from add_files_all_or_nothing [OF ne1, of True "''t4''" two_categories_db "''a1b2c3d4''"] ok1
  have r1: "add_files_to_category True ''t4'' two_categories_db ''a1b2c3d4'' [doc_c, doc_a] =
     (True, two_categories_db\<lparr>db_files := db_files two_categories_db @
                                  [stored_row 4 ''a1b2c3d4'' ''t4'' doc_c,
                                   stored_row 5 ''a1b2c3d4'' ''t4'' doc_a],
                                db_seq := 5\<rparr>)"
    by (auto simp: n)
  from add_files_all_or_nothing [OF ne2, of True "''t4''" two_categories_db "''a1b2c3d4''"] ko2
  have r2: "add_files_to_category True ''t4'' two_categories_db ''a1b2c3d4'' [doc_a, doc_unnamed] =
     (False, two_categories_db)"
    by auto
  from ne1 ne2 r1 r2 show ?thesis by blast
qed

subsection \<open>Deleting by index\<close>

lemma delete_file_index_too_large:
  "int (length (select_files_order_by_id d cid)) \<le> i \<Longrightarrow> delete_file ok d cid i = (False, d)"
  by (simp add: delete_file_def split: sum.splits)

lemma delete_file_index_too_small:
  "i < - int (length (select_files_order_by_id d cid)) \<Longrightarrow> delete_file ok d cid i = (False, d)"
  by (simp add: delete_file_def py_index_def split: sum.splits)


section \<open>Properties of the handlers\<close>

subsection \<open>Creating a category\<close>

lemma add_category_failure_unchanged:
  "\<not> fst (add_category ok now d cid name by) \<Longrightarrow> snd (add_category ok now d cid name by) = d"
  by (auto simp: add_category_def split: sum.splits)

lemma add_files_failure_unchanged:
  "\<not> fst (add_files_to_category ok now d cid fis) \<Longrightarrow>
   snd (add_files_to_category ok now d cid fis) = d"
  by (auto simp: add_files_to_category_def split: sum.splits)

text \<open>
  Claim C5, as stated, at a concrete input. \<open>add_category\<close> returns a bare boolean:
  a drawn id that collides with \<open>Docs\<close> and a storage failure with a fresh id give
  the same result \<open>False\<close>, and \<open>new_category\<close> answers both with the same message.
  The caller cannot tell the conflict from the other failure.
\<close>

theorem collision_reported_like_storage_failure:
  "add_category True ''t2'' docs_db ''a1b2c3d4'' ''Other'' 1001 = (False, docs_db) \<and>
   add_category False ''t2'' docs_db ''0f0f0f0f'' ''Other'' 1001 = (False, docs_db) \<and>
   new_category the_config True ''t2'' ''a1b2c3d4'' docs_state 1001 [''Other''] =
     (docs_state, Replied [CreateCategoryFailed]) \<and>
   new_category the_config False ''t2'' ''0f0f0f0f'' docs_state 1001 [''Other''] =
     (docs_state, Replied [CreateCategoryFailed])"
proof -
  have a: "add_category True ''t2'' docs_db ''a1b2c3d4'' ''Other'' 1001 = (False, docs_db)"
    by code_simp
  have b: "add_category False ''t2'' docs_db ''0f0f0f0f'' ''Other'' 1001 = (False, docs_db)"
    by (simp add: add_category_def connect_def)
  have adm: "is_admin the_config 1001"
    by (simp add: is_admin_def the_config_def)
  have c: "new_category the_config True ''t2'' ''a1b2c3d4'' docs_state 1001 [''Other''] =
     (docs_state, Replied [CreateCategoryFailed])"
    by (simp add: new_category_def adm docs_state_def a)
  have d: "new_category the_config False ''t2'' ''0f0f0f0f'' docs_state 1001 [''Other''] =
     (docs_state, Replied [CreateCategoryFailed])"
    by (simp add: new_category_def adm docs_state_def b)
  from a b c d show ?thesis by blast
qed

text \<open>
  Claim C5, amended. When the drawn id is the id of a stored category, \<open>add_category\<close>
  returns \<open>False\<close> and leaves the database as it was (the stored category is not
  overwritten), and \<open>new_category\<close> tells the admin that creating the category
  failed, without a state change.
\<close>

theorem add_category_collision_fails:
  assumes "uuid8 \<in> set (map c_id (db_categories (db s)))"
    and "is_admin cfg user_id" and "args \<noteq> []"
  shows "add_category ok now (db s) uuid8 name user_id = (False, db s) \<and>
         new_category cfg ok now uuid8 s user_id args = (s, Replied [CreateCategoryFailed])"
proof -
  have fail: "add_category ok now (db s) uuid8 nm user_id = (False, db s)" for nm
    using assms(1) by (simp add: add_category_def insert_category_def connect_def)
  then show ?thesis
    using assms(2,3) by (simp add: new_category_def)
qed

theorem add_category_collision_fails_witness:
  "''a1b2c3d4'' \<in> set (map c_id (db_categories (db docs_state))) \<and>
   is_admin the_config 1001 \<and> [''Other''] \<noteq> [] \<and>
   add_category True ''t2'' (db docs_state) ''a1b2c3d4'' ''Other'' 1001 = (False, db docs_state) \<and>
   new_category the_config True ''t2'' ''a1b2c3d4'' docs_state 1001 [''Other''] =
     (docs_state, Replied [CreateCategoryFailed])"
proof -
  have h1: "''a1b2c3d4'' \<in> set (map c_id (db_categories (db docs_state)))"
    by (simp add: docs_state_def docs_db_eq docs_category_def)
  have h2: "is_admin the_config 1001"
    by (simp add: is_admin_def the_config_def)
  have h3: "[''Other''] \<noteq> []" by simp
  from add_category_collision_fails [OF h1 h2 h3, of True "''t2''" "''Other''"] h1 h2 h3
  show ?thesis by blast
qed

subsection \<open>Committing an upload\<close>

text \<open>
  Claim C6. A caller with a pending upload that holds at least one file calls
  \<open>finish_upload\<close>. When \<open>add_files_to_category\<close> fails, the whole state is the one
  before the call, so the entry of the caller, with its category id and its files, is
  still there and the commit can be repeated. Only when it succeeds is the entry removed.
\<close>

theorem finish_upload_keeps_session_on_failure:
  assumes "pending_uploads s user_id = Some upload" and "ui_files upload \<noteq> []"
  shows "(\<not> fst (add_files_to_category ok now (db s) (ui_category_id upload) (ui_files upload)) \<longrightarrow>
            finish_upload cfg ok now s user_id = (s, Replied [SaveFilesFailed]) \<and>
            pending_uploads (fst (finish_upload cfg ok now s user_id)) user_id = Some upload) \<and>
         (fst (add_files_to_category ok now (db s) (ui_category_id upload) (ui_files upload)) \<longrightarrow>
            fst (finish_upload cfg ok now s user_id) =
              s\<lparr>db := snd (add_files_to_category ok now (db s) (ui_category_id upload)
                              (ui_files upload)),
                pending_uploads := (pending_uploads s)(user_id := None)\<rparr> \<and>
            pending_uploads (fst (finish_upload cfg ok now s user_id)) user_id = None)"
proof (cases "fst (add_files_to_category ok now (db s) (ui_category_id upload) (ui_files upload))")
  case True
  with assms show ?thesis
    by (simp add: finish_upload_def split_beta Let_def)
next
  case False
  then have "snd (add_files_to_category ok now (db s) (ui_category_id upload) (ui_files upload))
             = db s"
    by (rule add_files_failure_unchanged)
  with False assms show ?thesis
    by (simp add: finish_upload_def split_beta Let_def)
qed

theorem finish_upload_keeps_session_on_failure_witness:
  "pending_uploads collecting_state 1001 =
     Some \<lparr>ui_category_id = ''a1b2c3d4'', ui_files = [doc_c, doc_unnamed]\<rparr> \<and>
   [doc_c, doc_unnamed] \<noteq> [] \<and>
   \<not> fst (add_files_to_category True ''t2'' (db collecting_state) ''a1b2c3d4'' [doc_c, doc_unnamed]) \<and>
   finish_upload the_config True ''t2'' collecting_state 1001 =
     (collecting_state, Replied [SaveFilesFailed]) \<and>
   pending_uploads (fst (finish_upload the_config True ''t2'' collecting_state 1001)) 1001 =
     Some \<lparr>ui_category_id = ''a1b2c3d4'', ui_files = [doc_c, doc_unnamed]\<rparr>"
proof -
  let ?up = "\<lparr>ui_category_id = ''a1b2c3d4'', ui_files = [doc_c, doc_unnamed]\<rparr>"
  have h1: "pending_uploads collecting_state 1001 = Some ?up"
    by (simp add: collecting_state_def)
  have h2: "ui_files ?up \<noteq> []" by simp
  have dbc: "db collecting_state = docs_db"
    by (simp add: collecting_state_def)
  have fails: "\<not> fst (add_files_to_category True ''t2'' docs_db ''a1b2c3d4'' [doc_c, doc_unnamed])"
    by code_simp
  from finish_upload_keeps_session_on_failure [OF h1 h2, of True "''t2''" the_config] fails h1
  show ?thesis by (simp add: dbc)
qed

subsection \<open>Starting an upload\<close>

lemma upload_command_starts_session:
  assumes "is_admin cfg user_id" and "args \<noteq> []"
  shows "upload_command cfg ok s user_id args =
           (case get_category ok (db s) (hd args) of
              None \<Rightarrow> (s, Replied [CategoryNotFound])
            | Some cat \<Rightarrow>
                (s\<lparr>pending_uploads := (pending_uploads s)
                      (user_id \<mapsto> \<lparr>ui_category_id = hd args, ui_files = []\<rparr>)\<rparr>,
                 Replied [UploadModeOn (cat_name cat)]))"
  using assms by (simp add: upload_command_def Let_def)

text \<open>
  Claim C7. Starting an upload should need the category to exist. \<open>upload_command\<close>
  looks the category up (lemma above); the button path does not: \<open>button_handler\<close> hands
  \<open>add_<id>\<close> to \<open>start_adding_files\<close>, which stores the entry whatever the id is.
  On the empty database the admin gets a pending upload for \<open>deadbeef\<close>.
\<close>

theorem add_button_starts_session_for_absent_category:
  "get_category True (db initial_state) ''deadbeef'' = None \<and>
   button_handler the_config True True initial_state 1001 ''add_deadbeef'' =
     (initial_state\<lparr>pending_uploads :=
        [1001 \<mapsto> \<lparr>ui_category_id = ''deadbeef'', ui_files = []\<rparr>]\<rparr>,
      Replied [AddModeOn])"
proof -
  have "get_category True (db initial_state) ''deadbeef'' = None"
    by (simp add: initial_state_def init_database_def get_category_def get_categories_def
          connect_def)
  moreover have "button_handler the_config True True initial_state 1001 ''add_deadbeef'' =
     (initial_state\<lparr>pending_uploads :=
        [1001 \<mapsto> \<lparr>ui_category_id = ''deadbeef'', ui_files = []\<rparr>]\<rparr>,
      Replied [AddModeOn])"
    by (simp add: button_handler_def is_admin_def the_config_def startswith_def
          start_adding_files_def initial_state_def)
  ultimately show ?thesis by blast
qed

subsection \<open>Who can have a pending upload\<close>

lemma pending_start: "pending_uploads (fst (start cfg ok s u args)) = pending_uploads s"
  by (simp add: start_def handle_category_access_def split: option.splits)

lemma pending_new_category:
  "pending_uploads (fst (new_category cfg ok now uuid8 s u args)) = pending_uploads s"
  by (simp add: new_category_def Let_def split_beta)

lemma dom_upload_command:
  "dom (pending_uploads (fst (upload_command cfg ok s u args))) \<subseteq>
   dom (pending_uploads s) \<union> (if is_admin cfg u then {u} else {})"
  by (simp add: upload_command_def Let_def subset_insertI split: option.splits)

lemma dom_handle_document:
  "dom (pending_uploads (fst (handle_document s u fid fname fsize cap))) = dom (pending_uploads s)"
  by (auto simp: handle_document_def Let_def split: option.splits if_splits)

lemma dom_finish_upload:
  "dom (pending_uploads (fst (finish_upload cfg ok now s u))) \<subseteq> dom (pending_uploads s)"
  by (auto simp: finish_upload_def Let_def split_beta split: option.splits if_splits)

lemma pending_categories_list:
  "pending_uploads (fst (categories_list cfg ok s u)) = pending_uploads s"
  by (simp add: categories_list_def Let_def)

lemma pending_delete_file_from_category:
  "pending_uploads (fst (delete_file_from_category ok ok' s cid i)) = pending_uploads s"
  by (simp add: delete_file_from_category_def Let_def split_beta split: option.splits sum.splits)

lemma pending_delete_category_button:
  "pending_uploads (fst (delete_category_button ok ok' s cid)) = pending_uploads s"
  by (simp add: delete_category_button_def Let_def split_beta split: option.splits)

lemma pending_view_category_files:
  "pending_uploads (fst (view_category_files ok s cid)) = pending_uploads s"
  by (simp add: view_category_files_def split: option.splits)

lemma pending_show_files_for_deletion:
  "pending_uploads (fst (show_files_for_deletion ok s cid)) = pending_uploads s"
  by (simp add: show_files_for_deletion_def split: option.splits)

lemma dom_button_handler:
  "dom (pending_uploads (fst (button_handler cfg ok ok' s u data))) \<subseteq>
   dom (pending_uploads s) \<union> (if is_admin cfg u then {u} else {})"
proof (cases "is_admin cfg u")
  case False
  then show ?thesis by (simp add: button_handler_def)
next
  case True
  have del: "dom (pending_uploads (fst (case r of Inl e \<Rightarrow> (s, Raised e)
                 | Inr file_index \<Rightarrow> delete_file_from_category ok ok' s c file_index)))
             = dom (pending_uploads s)" for r c
    by (cases r) (simp_all add: pending_delete_file_from_category)
  have del2: "dom (pending_uploads (fst (case r of Inl e \<Rightarrow> (s, Raised e)
                 | Inr index_text \<Rightarrow> (case py_int index_text of Inl e \<Rightarrow> (s, Raised e)
                 | Inr file_index \<Rightarrow> delete_file_from_category ok ok' s c file_index))))
             = dom (pending_uploads s)" for r c
    by (cases r) (simp_all add: del)
  have del3: "dom (pending_uploads (fst (case r of Inl e \<Rightarrow> (s, Raised e)
                 | Inr category_id \<Rightarrow> (case r' of Inl e \<Rightarrow> (s, Raised e)
                 | Inr index_text \<Rightarrow> (case py_int index_text of Inl e \<Rightarrow> (s, Raised e)
                 | Inr file_index \<Rightarrow>
                     delete_file_from_category ok ok' s category_id file_index)))))
             = dom (pending_uploads s)" for r r'
    by (cases r) (simp_all add: del2)
  show ?thesis
    using True
    by (simp add: button_handler_def Let_def pending_delete_category_button
          pending_view_category_files pending_show_files_for_deletion start_adding_files_def
          confirm_category_deletion_def subset_insertI del3)
qed

lemma sessions_of_admins_step:
  assumes "sessions_of_admins cfg s"
    and "dom (pending_uploads s') \<subseteq> dom (pending_uploads s) \<union> (if is_admin cfg u then {u} else {})"
  shows "sessions_of_admins cfg s'"
proof -
  have "(if is_admin cfg u then {u} else {}) \<subseteq> set (ADMIN_IDS cfg)"
    by (simp add: is_admin_def)
  with assms show ?thesis
    unfolding sessions_of_admins_def by blast
qed

lemma dom_dispatch:
  assumes "sessions_of_admins cfg s"
  shows "sessions_of_admins cfg (fst (dispatch cfg s upd))"
proof (cases upd)
  case (Cmd_start u args ok)
  with assms show ?thesis by (simp add: sessions_of_admins_def pending_start)
next
  case (Cmd_new_category u args now uuid8 ok)
  with assms show ?thesis by (simp add: sessions_of_admins_def pending_new_category)
next
  case (Cmd_upload u args ok)
  show ?thesis
    unfolding Cmd_upload dispatch.simps
    using assms dom_upload_command by (rule sessions_of_admins_step)
next
  case (Cmd_finish_upload u now ok)
  have "dom (pending_uploads (fst (finish_upload cfg ok now s u))) \<subseteq>
        dom (pending_uploads s) \<union> (if is_admin cfg u then {u} else {})"
    using dom_finish_upload [of cfg ok now s u] by blast
  with assms show ?thesis
    unfolding Cmd_finish_upload dispatch.simps by (rule sessions_of_admins_step)
next
  case (Cmd_categories u ok)
  with assms show ?thesis by (simp add: sessions_of_admins_def pending_categories_list)
next
  case (Document_message u fid fname fsize cap)
  with assms show ?thesis by (simp add: sessions_of_admins_def dom_handle_document)
next
  case (Callback_query u data ok ok')
  show ?thesis
    unfolding Callback_query dispatch.simps
    using assms dom_button_handler by (rule sessions_of_admins_step)
qed

lemma reachable_sessions_of_admins: "reachable cfg s \<Longrightarrow> sessions_of_admins cfg s"
proof (induction rule: reachable.induct)
  case reachable_init
  show ?case by (simp add: sessions_of_admins_def initial_state_def)
next
  case (reachable_step s upd)
  then show ?case by (simp add: dom_dispatch)
next
  case (reachable_restart s)
  show ?case by (simp add: sessions_of_admins_def)
qed

lemma handle_document_without_session:
  "pending_uploads s u = None \<Longrightarrow> handle_document s u fid fname fsize cap = (s, Replied [])"
  by (simp add: handle_document_def)

lemma finish_upload_without_session:
  "pending_uploads s u = None \<Longrightarrow> finish_upload cfg ok now s u = (s, Replied [NoUploadInProgress])"
  by (simp add: finish_upload_def)

lemma no_session_of_other_users:
  "sessions_of_admins cfg s \<Longrightarrow> \<not> is_admin cfg u \<Longrightarrow> pending_uploads s u = None"
  by (auto simp: sessions_of_admins_def is_admin_def)

text \<open>
  Claim C10. In every state that the bot can reach, every key of \<open>pending_uploads\<close>
  is an admin: only \<open>upload_command\<close> and the \<open>add_\<close> button create an entry, both
  behind \<open>is_admin\<close>, and no handler adds a key for anyone else. So
  \<open>handle_document\<close> and \<open>finish_upload\<close>, which look at the dict and not at
  \<open>is_admin\<close>, do nothing for a user who is not an admin.
\<close>

theorem pending_uploads_keys_are_admins:
  assumes "reachable cfg s"
  shows "(\<forall>u. pending_uploads s u \<noteq> None \<longrightarrow> is_admin cfg u) \<and>
         (\<forall>u. \<not> is_admin cfg u \<longrightarrow>
            (\<forall>fid fname fsize cap. handle_document s u fid fname fsize cap = (s, Replied [])) \<and>
            (\<forall>ok now. finish_upload cfg ok now s u = (s, Replied [NoUploadInProgress])))"
proof -
  have inv: "sessions_of_admins cfg s"
    using assms by (rule reachable_sessions_of_admins)
  have keys: "\<forall>u. pending_uploads s u \<noteq> None \<longrightarrow> is_admin cfg u"
  proof (intro allI impI)
    fix u
    assume "pending_uploads s u \<noteq> None"
    then show "is_admin cfg u"
      using no_session_of_other_users [OF inv, of u] by (cases "is_admin cfg u") simp_all
  qed
  have others: "\<forall>u. \<not> is_admin cfg u \<longrightarrow>
            (\<forall>fid fname fsize cap. handle_document s u fid fname fsize cap = (s, Replied [])) \<and>
            (\<forall>ok now. finish_upload cfg ok now s u = (s, Replied [NoUploadInProgress]))"
  proof (intro allI impI)
    fix u
    assume "\<not> is_admin cfg u"
    with inv have "pending_uploads s u = None"
      by (rule no_session_of_other_users)
    then show "(\<forall>fid fname fsize cap. handle_document s u fid fname fsize cap = (s, Replied [])) \<and>
            (\<forall>ok now. finish_upload cfg ok now s u = (s, Replied [NoUploadInProgress]))"
      by (simp add: handle_document_without_session finish_upload_without_session)
  qed
  from keys others show ?thesis by (rule conjI)
qed

lemma uploading_state_reachable: "reachable the_config uploading_state"
  unfolding uploading_state_def by (intro reachable_step reachable_init)

lemma uploading_state_pending:
  "pending_uploads uploading_state 1001 = Some \<lparr>ui_category_id = ''a1b2c3d4'', ui_files = []\<rparr>"
proof -
  have adm: "is_admin the_config 1001" by (simp add: is_admin_def the_config_def)
  have created: "fst (new_category the_config True ''t0'' ''a1b2c3d4'' initial_state 1001 [''Docs''])
      = initial_state\<lparr>db := init_database\<lparr>db_categories := [docs_category]\<rparr>\<rparr>"
    by (simp add: new_category_def adm add_category_def connect_def insert_category_def
          fits_int64_def int64_min_def int64_max_def initial_state_def init_database_def
          docs_category_def Let_def)
  have got: "get_category True (init_database\<lparr>db_categories := [docs_category]\<rparr>) ''a1b2c3d4''
      \<noteq> None"
    by (simp add: get_category_def get_categories_def connect_def init_database_def
          docs_category_def)
  show ?thesis
    using got
    by (auto simp: uploading_state_def created upload_command_def adm Let_def)
qed

theorem pending_uploads_keys_are_admins_witness:
  "reachable the_config uploading_state \<and>
   pending_uploads uploading_state 1001 \<noteq> None \<and> is_admin the_config 1001 \<and>
   \<not> is_admin the_config 2002 \<and>
   handle_document uploading_state 2002 ''FA'' (Some ''a.txt'') (Some 10) None =
     (uploading_state, Replied []) \<and>
   finish_upload the_config True ''t1'' uploading_state 2002 =
     (uploading_state, Replied [NoUploadInProgress])"
proof -
  have p: "pending_uploads uploading_state 1001 \<noteq> None"
    by (simp add: uploading_state_pending)
  have g: "\<not> is_admin the_config 2002"
    by (simp add: is_admin_def the_config_def)
  note inst = pending_uploads_keys_are_admins [OF uploading_state_reachable]
  have a: "is_admin the_config 1001"
    using inst [THEN conjunct1, rule_format, OF p] .
  note others = inst [THEN conjunct2, rule_format, OF g]
  have h: "handle_document uploading_state 2002 ''FA'' (Some ''a.txt'') (Some 10) None =
             (uploading_state, Replied [])"
    using others [THEN conjunct1, rule_format] .
  have f: "finish_upload the_config True ''t1'' uploading_state 2002 =
             (uploading_state, Replied [NoUploadInProgress])"
    using others [THEN conjunct2, rule_format] .
  from uploading_state_reachable p a g h f show ?thesis
    by (intro conjI)
qed

subsection \<open>Requests of users who are not admins\<close>

lemma is_admin_1001: "is_admin the_config 1001"
  by (simp add: is_admin_def the_config_def)

lemma not_admin_2002: "\<not> is_admin the_config 2002"
  by (simp add: is_admin_def the_config_def)

lemma created_db_eq:
  "snd (add_category True ''t0'' init_database ''a1b2c3d4'' ''Docs'' 1001) =
   init_database\<lparr>db_categories := [docs_category]\<rparr>"
  by code_simp

lemma uploading_state_eq:
  "uploading_state =
     \<lparr>db = init_database\<lparr>db_categories := [docs_category]\<rparr>,
      pending_uploads = [1001 \<mapsto> \<lparr>ui_category_id = ''a1b2c3d4'', ui_files = []\<rparr>]\<rparr>"
proof -
  have created: "fst (new_category the_config True ''t0'' ''a1b2c3d4'' initial_state 1001 [''Docs''])
      = \<lparr>db = init_database\<lparr>db_categories := [docs_category]\<rparr>, pending_uploads = Map.empty\<rparr>"
    by (simp add: new_category_def is_admin_1001 add_category_def connect_def insert_category_def
          fits_int64_def int64_min_def int64_max_def initial_state_def init_database_def
          docs_category_def Let_def)
  have got: "get_category True (init_database\<lparr>db_categories := [docs_category]\<rparr>) ''a1b2c3d4''
      = Some \<lparr>cat_name = ''Docs'', cat_files = [], cat_created_by = 1001,
               cat_created_at = ''t0''\<rparr>"
    by code_simp
  show ?thesis
    by (simp add: uploading_state_def created upload_command_def is_admin_1001 Let_def got)
qed

lemma committed_state_eq:
  "committed_state = \<lparr>db = docs_db, pending_uploads = Map.empty\<rparr>"
proof -
  have collected:
    "fst (handle_document
       (fst (handle_document uploading_state 1001 ''FA'' (Some ''a.txt'') (Some 10) (Some ''first'')))
       1001 ''FB'' (Some ''b.txt'') (Some 20) None) =
     \<lparr>db = init_database\<lparr>db_categories := [docs_category]\<rparr>,
      pending_uploads = [1001 \<mapsto> \<lparr>ui_category_id = ''a1b2c3d4'', ui_files = [doc_a, doc_b]\<rparr>]\<rparr>"
    by (simp add: uploading_state_eq handle_document_def Let_def doc_a_def doc_b_def)
  have stored: "add_files_to_category True ''t1''
       (init_database\<lparr>db_categories := [docs_category]\<rparr>) ''a1b2c3d4'' [doc_a, doc_b] =
     (True, docs_db)"
    unfolding docs_db_def created_db_eq by (simp add: prod_eq_iff) code_simp
  show ?thesis
    by (simp add: committed_state_def collected finish_upload_def Let_def stored)
qed

lemma committed_state_reachable: "reachable the_config committed_state"
  unfolding committed_state_def
  by (intro reachable_step uploading_state_reachable)

text \<open>
  Claim C9, as stated, at a concrete input. User 2002 is not an admin. \<open>new_category\<close>
  refuses the user as not authorized, but \<open>finish_upload\<close> answers that no upload is
  in progress and \<open>handle_document\<close> answers nothing: neither of the two checks
  \<open>is_admin\<close>, so neither yields the authorization error.
\<close>

theorem commit_by_other_user_not_refused_as_unauthorized:
  "\<not> is_admin the_config 2002 \<and>
   finish_upload the_config True ''t2'' initial_state 2002 =
     (initial_state, Replied [NoUploadInProgress]) \<and>
   handle_document initial_state 2002 ''FA'' (Some ''a.txt'') (Some 10) None =
     (initial_state, Replied []) \<and>
   new_category the_config True ''t2'' ''0f0f0f0f'' initial_state 2002 [''Pics''] =
     (initial_state, Replied [NotAuthorized])"
  by (simp add: not_admin_2002 finish_upload_def handle_document_def new_category_def
        initial_state_def)

lemma start_deep_link:
  "start cfg ok s v [''cat_'' @ cid] = handle_category_access cfg ok s v cid"
  by (simp add: start_def startswith_def)

text \<open>
  Claim C9, amended. In every reachable state, for a user who is not an admin:
  \<open>new_category\<close>, \<open>upload_command\<close> and \<open>button_handler\<close> (the buttons start an
  upload, delete a file and delete a category) reply that the user is not authorized;
  \<open>finish_upload\<close> replies that no upload is in progress and \<open>handle_document\<close>
  replies nothing; and none of the five changes the database or \<open>pending_uploads\<close>.
  The deep link \<open>cat_<id>\<close> of a stored category is open to every user: an admin gets
  the menu of the category, any other user gets its files, in the order in which
  \<open>get_category\<close> reports them, and the state stays as it is.
\<close>

theorem other_users_change_nothing:
  assumes "reachable cfg s" and "\<not> is_admin cfg u"
  shows "new_category cfg ok now uuid8 s u args = (s, Replied [NotAuthorized]) \<and>
         upload_command cfg ok s u args' = (s, Replied [NotAuthorized]) \<and>
         button_handler cfg ok ok' s u data = (s, Replied [NotAuthorized]) \<and>
         finish_upload cfg ok now s u = (s, Replied [NoUploadInProgress]) \<and>
         handle_document s u fid fname fsize cap = (s, Replied []) \<and>
         (\<forall>v cid cat. get_category ok (db s) cid = Some cat \<longrightarrow>
            start cfg ok s v [''cat_'' @ cid] =
              (s, Replied
                (if is_admin cfg v then
                   [AdminMenu (cat_name cat) (length (cat_files cat))
                      [''view_'' @ cid, ''add_'' @ cid, ''delete_file_'' @ cid,
                       ''delete_cat_'' @ cid]]
                 else if cat_files cat = [] then [CategoryHasNoFiles]
                 else SendingFilesOf (cat_name cat) # send_documents (cat_files cat))))"
proof -
  have none: "pending_uploads s u = None"
    using reachable_sessions_of_admins [OF assms(1)] assms(2)
    by (rule no_session_of_other_users)
  have gated: "new_category cfg ok now uuid8 s u args = (s, Replied [NotAuthorized])"
    "upload_command cfg ok s u args' = (s, Replied [NotAuthorized])"
    "button_handler cfg ok ok' s u data = (s, Replied [NotAuthorized])"
    using assms(2) by (simp_all add: new_category_def upload_command_def button_handler_def)
  have by_session: "finish_upload cfg ok now s u = (s, Replied [NoUploadInProgress])"
    "handle_document s u fid fname fsize cap = (s, Replied [])"
    using none by (simp_all add: finish_upload_without_session handle_document_without_session)
  have link: "\<forall>v cid cat. get_category ok (db s) cid = Some cat \<longrightarrow>
            start cfg ok s v [''cat_'' @ cid] =
              (s, Replied
                (if is_admin cfg v then
                   [AdminMenu (cat_name cat) (length (cat_files cat))
                      [''view_'' @ cid, ''add_'' @ cid, ''delete_file_'' @ cid,
                       ''delete_cat_'' @ cid]]
                 else if cat_files cat = [] then [CategoryHasNoFiles]
                 else SendingFilesOf (cat_name cat) # send_documents (cat_files cat)))"
  proof (intro allI impI)
    fix v cid cat
    assume got: "get_category ok (db s) cid = Some cat"
    show "start cfg ok s v [''cat_'' @ cid] =
              (s, Replied
                (if is_admin cfg v then
                   [AdminMenu (cat_name cat) (length (cat_files cat))
                      [''view_'' @ cid, ''add_'' @ cid, ''delete_file_'' @ cid,
                       ''delete_cat_'' @ cid]]
                 else if cat_files cat = [] then [CategoryHasNoFiles]
                 else SendingFilesOf (cat_name cat) # send_documents (cat_files cat)))"
      unfolding start_deep_link by (simp add: handle_category_access_def got)
  qed
  from gated by_session link show ?thesis by (intro conjI)
qed

theorem other_users_change_nothing_witness:
  "reachable the_config committed_state \<and> \<not> is_admin the_config 2002 \<and>
   new_category the_config True ''t2'' ''0f0f0f0f'' committed_state 2002 [''Pics''] =
     (committed_state, Replied [NotAuthorized]) \<and>
   upload_command the_config True committed_state 2002 [''a1b2c3d4''] =
     (committed_state, Replied [NotAuthorized]) \<and>
   button_handler the_config True True committed_state 2002 ''del_file_a1b2c3d4_0'' =
     (committed_state, Replied [NotAuthorized]) \<and>
   finish_upload the_config True ''t2'' committed_state 2002 =
     (committed_state, Replied [NoUploadInProgress]) \<and>
   handle_document committed_state 2002 ''FC'' (Some ''c.txt'') (Some 30) None =
     (committed_state, Replied []) \<and>
   start the_config True committed_state 2002 [''cat_a1b2c3d4''] =
     (committed_state,
      Replied [SendingFilesOf ''Docs'', SendDocument ''FA'' ''first'', SendDocument ''FB'' []])"
proof -
  note inst = other_users_change_nothing [OF committed_state_reachable not_admin_2002,
      where ok = True and now = "''t2''" and ?uuid8.0 = "''0f0f0f0f''" and args = "[''Pics'']"
        and args' = "[''a1b2c3d4'']" and ok' = True and data = "''del_file_a1b2c3d4_0''"
        and fid = "''FC''" and fname = "Some ''c.txt''" and fsize = "Some 30" and cap = None]
  have got: "get_category True (db committed_state) ''a1b2c3d4'' =
      Some \<lparr>cat_name = ''Docs'', cat_files = [doc_a, doc_b], cat_created_by = 1001,
             cat_created_at = ''t0''\<rparr>"
    unfolding committed_state_eq by (simp, code_simp)
  have docs: "send_documents [doc_a, doc_b] = [SendDocument ''FA'' ''first'', SendDocument ''FB'' []]"
    by code_simp
  have link: "start the_config True committed_state 2002 [''cat_'' @ ''a1b2c3d4''] =
     (committed_state,
      Replied [SendingFilesOf ''Docs'', SendDocument ''FA'' ''first'', SendDocument ''FB'' []])"
    using inst [THEN conjunct2, THEN conjunct2, THEN conjunct2, THEN conjunct2, THEN conjunct2,
        rule_format, OF got]
    by (simp add: not_admin_2002 docs)
  then have link': "start the_config True committed_state 2002 [''cat_a1b2c3d4''] =
     (committed_state,
      Replied [SendingFilesOf ''Docs'', SendDocument ''FA'' ''first'', SendDocument ''FB'' []])"
    by simp
  from committed_state_reachable not_admin_2002
    inst [THEN conjunct1]
    inst [THEN conjunct2, THEN conjunct1]
    inst [THEN conjunct2, THEN conjunct2, THEN conjunct1]
    inst [THEN conjunct2, THEN conjunct2, THEN conjunct2, THEN conjunct1]
    inst [THEN conjunct2, THEN conjunct2, THEN conjunct2, THEN conjunct2, THEN conjunct1]
    link'
  show ?thesis by (intro conjI)
qed

subsection \<open>Decoding the callback data\<close>

text \<open>
  Claim C8, as stated, at concrete inputs. Decoding is the chain of \<open>startswith\<close>
  tests in \<open>button_handler\<close>. For \<open>del_file_a1b2c3d4\<close> (no index field)
  \<open>parts[1]\<close> raises \<open>IndexError\<close>, for \<open>del_file_a1b2c3d4_x\<close> (index not a number)
  \<open>int(parts[1])\<close> raises \<open>ValueError\<close>: the exception leaves the handler, no error
  value is returned.
\<close>

theorem malformed_delete_token_raises:
  "is_admin the_config 1001 \<and>
   button_handler the_config True True committed_state 1001 ''del_file_a1b2c3d4'' =
     (committed_state, Raised IndexError) \<and>
   button_handler the_config True True committed_state 1001 ''del_file_a1b2c3d4_x'' =
     (committed_state, Raised ValueError)"
proof -
  have p1: "py_index (split1 CHR ''_'' ''a1b2c3d4'') 1 = Inl IndexError"
    by code_simp
  have p0: "py_index (split1 CHR ''_'' ''a1b2c3d4'') 0 = Inr ''a1b2c3d4''"
    by code_simp
  have q0: "py_index (split1 CHR ''_'' ''a1b2c3d4_x'') 0 = Inr ''a1b2c3d4''"
    by code_simp
  have q1: "py_index (split1 CHR ''_'' ''a1b2c3d4_x'') 1 = Inr ''x''"
    by code_simp
  have q2: "py_int ''x'' = Inl ValueError"
    by code_simp
  have a: "button_handler the_config True True committed_state 1001 ''del_file_a1b2c3d4'' =
     (committed_state, Raised IndexError)"
    by (simp add: button_handler_def is_admin_1001 startswith_def p0 p1)
  have b: "button_handler the_config True True committed_state 1001 ''del_file_a1b2c3d4_x'' =
     (committed_state, Raised ValueError)"
    by (simp add: button_handler_def is_admin_1001 startswith_def q0 q1 q2)
  from is_admin_1001 a b show ?thesis by (intro conjI)
qed

lemma split1_without_separator: "sep \<notin> set s \<Longrightarrow> split1 sep s = [s]"
proof -
  assume "sep \<notin> set s"
  then have d: "dropWhile (\<lambda>c. c \<noteq> sep) s = []"
    by (auto simp: dropWhile_eq_Nil_conv)
  show ?thesis unfolding split1_def d by simp
qed

lemma split1_at_separator:
  "sep \<notin> set a \<Longrightarrow> split1 sep (a @ sep # b) = [a, b]"
proof -
  assume n: "sep \<notin> set a"
  then have d: "dropWhile (\<lambda>c. c \<noteq> sep) (a @ sep # b) = sep # b"
    by (induction a) auto
  from n have t: "takeWhile (\<lambda>c. c \<noteq> sep) (a @ sep # b) = a"
    by (induction a) auto
  show ?thesis unfolding split1_def d t by simp
qed

lemma del_file_token:
  "is_admin cfg u \<Longrightarrow>
   button_handler cfg ok ok' s u (''del_file_'' @ rest) =
     (let parts = split1 CHR ''_'' rest in
      case py_index parts 0 of
        Inl e \<Rightarrow> (s, Raised e)
      | Inr category_id \<Rightarrow>
          (case py_index parts 1 of
             Inl e \<Rightarrow> (s, Raised e)
           | Inr index_text \<Rightarrow>
               (case py_int index_text of
                  Inl e \<Rightarrow> (s, Raised e)
                | Inr file_index \<Rightarrow>
                    delete_file_from_category ok ok' s category_id file_index)))"
  by (simp add: button_handler_def startswith_def)

lemma known_prefix_token:
  assumes "is_admin cfg u"
  shows "button_handler cfg ok ok' s u (''view_'' @ cid) = view_category_files ok s cid"
    and "button_handler cfg ok ok' s u (''delete_file_'' @ cid) = show_files_for_deletion ok s cid"
    and "button_handler cfg ok ok' s u (''delete_cat_'' @ cid) = confirm_category_deletion s cid"
    and "button_handler cfg ok ok' s u (''confirm_del_cat_'' @ cid) =
           delete_category_button ok ok' s cid"
  using assms by (simp_all add: button_handler_def startswith_def)

text \<open>
  Claim C8, amended. For an admin, \<open>button_handler\<close> decodes as follows. Callback data
  with none of the six prefixes does nothing: no reply, no change. Data \<open>del_file_...\<close>
  without an index field raises \<open>IndexError\<close> and with an index that \<open>int\<close> rejects
  raises \<open>ValueError\<close>, in both cases with the state as it was. A missing category id
  after \<open>view_\<close>, \<open>delete_file_\<close>, \<open>confirm_del_cat_\<close> or in \<open>del_file__<i>\<close> is read as the
  empty id and looked up like any other: when no category has it, the reply is
  category-not-found and nothing changes. \<open>delete_cat_\<close> without an id puts up the
  confirmation for the empty id, without a lookup and without a change.
\<close>

theorem malformed_tokens_raise_or_do_nothing:
  assumes "is_admin cfg u"
  shows "(\<not> known_prefix data \<longrightarrow> button_handler cfg ok ok' s u data = (s, Replied [])) \<and>
         (CHR ''_'' \<notin> set rest \<longrightarrow>
            button_handler cfg ok ok' s u (''del_file_'' @ rest) = (s, Raised IndexError)) \<and>
         (CHR ''_'' \<notin> set cid \<and> py_int idx = Inl ValueError \<longrightarrow>
            button_handler cfg ok ok' s u (''del_file_'' @ cid @ ''_'' @ idx) =
              (s, Raised ValueError)) \<and>
         (get_category ok (db s) [] = None \<longrightarrow>
            button_handler cfg ok ok' s u ''view_'' = (s, Replied [CategoryNotFound]) \<and>
            button_handler cfg ok ok' s u ''delete_file_'' = (s, Replied [CategoryNotFound]) \<and>
            button_handler cfg ok ok' s u ''confirm_del_cat_'' = (s, Replied [CategoryNotFound]) \<and>
            (\<forall>i. py_int idx' = Inr i \<longrightarrow>
               button_handler cfg ok ok' s u (''del_file__'' @ idx') =
                 (s, Replied [CategoryNotFound]))) \<and>
         button_handler cfg ok ok' s u ''delete_cat_'' =
           (s, Replied [ConfirmCategoryDeletion [''confirm_del_cat_'', ''cancel'']])"
proof -
  have unknown: "\<not> known_prefix data \<longrightarrow> button_handler cfg ok ok' s u data = (s, Replied [])"
    using assms by (simp add: known_prefix_def button_handler_def)
  have missing: "CHR ''_'' \<notin> set rest \<longrightarrow>
            button_handler cfg ok ok' s u (''del_file_'' @ rest) = (s, Raised IndexError)"
    using assms
    by (simp add: del_file_token split1_without_separator py_index_def del: append.simps)
  have not_numeric: "CHR ''_'' \<notin> set cid \<and> py_int idx = Inl ValueError \<longrightarrow>
            button_handler cfg ok ok' s u (''del_file_'' @ cid @ ''_'' @ idx) =
              (s, Raised ValueError)"
  proof
    assume h: "CHR ''_'' \<notin> set cid \<and> py_int idx = Inl ValueError"
    then have "split1 CHR ''_'' (cid @ ''_'' @ idx) = [cid, idx]"
      using split1_at_separator [of "CHR ''_''" cid idx] by simp
    with h assms show "button_handler cfg ok ok' s u (''del_file_'' @ cid @ ''_'' @ idx) =
              (s, Raised ValueError)"
      by (simp add: del_file_token py_index_def del: append.simps)
  qed
  have no_id: "get_category ok (db s) [] = None \<longrightarrow>
            button_handler cfg ok ok' s u ''view_'' = (s, Replied [CategoryNotFound]) \<and>
            button_handler cfg ok ok' s u ''delete_file_'' = (s, Replied [CategoryNotFound]) \<and>
            button_handler cfg ok ok' s u ''confirm_del_cat_'' = (s, Replied [CategoryNotFound]) \<and>
            (\<forall>i. py_int idx' = Inr i \<longrightarrow>
               button_handler cfg ok ok' s u (''del_file__'' @ idx') =
                 (s, Replied [CategoryNotFound]))"
  proof
    assume none: "get_category ok (db s) [] = None"
    have v: "button_handler cfg ok ok' s u ''view_'' = (s, Replied [CategoryNotFound])"
      using known_prefix_token(1) [OF assms, of ok ok' s "[]"] none
      by (simp add: view_category_files_def)
    have f: "button_handler cfg ok ok' s u ''delete_file_'' = (s, Replied [CategoryNotFound])"
      using known_prefix_token(2) [OF assms, of ok ok' s "[]"] none
      by (simp add: show_files_for_deletion_def)
    have c: "button_handler cfg ok ok' s u ''confirm_del_cat_'' = (s, Replied [CategoryNotFound])"
      using known_prefix_token(4) [OF assms, of ok ok' s "[]"] none
      by (simp add: delete_category_button_def)
    have d: "\<forall>i. py_int idx' = Inr i \<longrightarrow>
               button_handler cfg ok ok' s u (''del_file__'' @ idx') =
                 (s, Replied [CategoryNotFound])"
    proof (intro allI impI)
      fix i
      assume i: "py_int idx' = Inr i"
      have parts: "split1 CHR ''_'' (''_'' @ idx') = [[], idx']"
        using split1_at_separator [of "CHR ''_''" "[]" idx'] by simp
      have "button_handler cfg ok ok' s u (''del_file_'' @ ''_'' @ idx') =
              (s, Replied [CategoryNotFound])"
        using assms
        by (simp add: del_file_token parts py_index_def i delete_file_from_category_def none
              del: append.simps)
      then show "button_handler cfg ok ok' s u (''del_file__'' @ idx') =
                   (s, Replied [CategoryNotFound])"
        by simp
    qed
    from v f c d show "button_handler cfg ok ok' s u ''view_'' = (s, Replied [CategoryNotFound]) \<and>
            button_handler cfg ok ok' s u ''delete_file_'' = (s, Replied [CategoryNotFound]) \<and>
            button_handler cfg ok ok' s u ''confirm_del_cat_'' = (s, Replied [CategoryNotFound]) \<and>
            (\<forall>i. py_int idx' = Inr i \<longrightarrow>
               button_handler cfg ok ok' s u (''del_file__'' @ idx') =
                 (s, Replied [CategoryNotFound]))"
      by (intro conjI)
  qed
  have confirm: "button_handler cfg ok ok' s u ''delete_cat_'' =
           (s, Replied [ConfirmCategoryDeletion [''confirm_del_cat_'', ''cancel'']])"
    using known_prefix_token(3) [OF assms, of ok ok' s "[]"]
    by (simp add: confirm_category_deletion_def)
  from unknown missing not_numeric no_id confirm show ?thesis by (intro conjI)
qed

theorem malformed_tokens_raise_or_do_nothing_witness:
  "is_admin the_config 1001 \<and> \<not> known_prefix ''cancel'' \<and>
   button_handler the_config True True committed_state 1001 ''cancel'' =
     (committed_state, Replied []) \<and>
   CHR ''_'' \<notin> set ''a1b2c3d4'' \<and>
   button_handler the_config True True committed_state 1001 (''del_file_'' @ ''a1b2c3d4'') =
     (committed_state, Raised IndexError) \<and>
   py_int ''x'' = Inl ValueError \<and>
   button_handler the_config True True committed_state 1001
       (''del_file_'' @ ''a1b2c3d4'' @ ''_'' @ ''x'') =
     (committed_state, Raised ValueError) \<and>
   get_category True (db committed_state) [] = None \<and>
   button_handler the_config True True committed_state 1001 ''view_'' =
     (committed_state, Replied [CategoryNotFound]) \<and>
   py_int ''0'' = Inr 0 \<and>
   button_handler the_config True True committed_state 1001 (''del_file__'' @ ''0'') =
     (committed_state, Replied [CategoryNotFound])"
proof -
  note inst = malformed_tokens_raise_or_do_nothing [OF is_admin_1001,
      where data = "''cancel''" and rest = "''a1b2c3d4''" and cid = "''a1b2c3d4''"
        and idx = "''x''" and idx' = "''0''" and ok = True and ok' = True
        and s = committed_state]
  have unknown: "\<not> known_prefix ''cancel''"
    by code_simp
  have clean: "CHR ''_'' \<notin> set ''a1b2c3d4''"
    by simp
  have not_numeric: "py_int ''x'' = Inl ValueError"
    by code_simp
  from clean not_numeric
  have both: "CHR ''_'' \<notin> set ''a1b2c3d4'' \<and> py_int ''x'' = Inl ValueError" ..
  have none: "get_category True (db committed_state) [] = None"
    unfolding committed_state_eq by (simp, code_simp)
  have zero: "py_int ''0'' = Inr 0"
    by code_simp
  note no_id = inst [THEN conjunct2, THEN conjunct2, THEN conjunct2, THEN conjunct1,
      rule_format, OF none]
  from is_admin_1001 unknown
    inst [THEN conjunct1, rule_format, OF unknown]
    clean
    inst [THEN conjunct2, THEN conjunct1, rule_format, OF clean]
    not_numeric
    inst [THEN conjunct2, THEN conjunct2, THEN conjunct1, rule_format, OF both]
    none
    no_id [THEN conjunct1]
    zero
    no_id [THEN conjunct2, THEN conjunct2, THEN conjunct2, rule_format, OF zero]
  show ?thesis by (intro conjI)
qed

subsection \<open>The tokens that the bot emits for deleting a file\<close>

text \<open>
  \<open>show_files_for_deletion\<close> builds \<open>del_file_<id>_<i>\<close> with \<open>str(i)\<close>; when the id has no
  underscore (the ids drawn by \<open>new_category\<close> are hexadecimal), \<open>button_handler\<close>
  reads the same id and index back.
\<close>

lemma digit_char_props:
  assumes "d < 10"
  shows "is_digit (digit_char d)" and "digit_value (digit_char d) = d"
    and "\<not> py_isspace (digit_char d)" and "digit_char d \<noteq> CHR ''-''"
    and "digit_char d \<noteq> CHR ''+''"
proof -
  have v: "(of_char (digit_char d) :: nat) = 48 + d"
    using assms by (simp add: digit_char_def)
  show "is_digit (digit_char d)" using assms by (simp add: is_digit_def v)
  show "digit_value (digit_char d) = d" by (simp add: digit_value_def v)
  show "\<not> py_isspace (digit_char d)" using assms by (simp add: py_isspace_def v)
  have "(of_char (digit_char d) :: nat) \<noteq> of_char CHR ''-''" using assms by (simp add: v)
  then show "digit_char d \<noteq> CHR ''-''" by auto
  have "(of_char (digit_char d) :: nat) \<noteq> of_char CHR ''+''" using assms by (simp add: v)
  then show "digit_char d \<noteq> CHR ''+''" by auto
qed

lemma parse_digits_all_digits:
  "\<forall>c\<in>set ds. is_digit c \<Longrightarrow> parse_digits acc ds = Some (digits_value ds acc)"
  by (induction acc ds rule: parse_digits.induct) (simp_all add: digits_value_def)

lemma str_nat_digits: "\<forall>c\<in>set (str_nat n). \<exists>d<10. c = digit_char d"
proof (induction n rule: str_nat.induct)
  case (1 n)
  show ?case
  proof (cases "n < 10")
    case True
    then show ?thesis by (subst str_nat.simps) auto
  next
    case False
    have "\<exists>d<10. digit_char (n mod 10) = digit_char d"
      by (rule exI [of _ "n mod 10"]) simp
    with False 1 show ?thesis by (subst str_nat.simps) auto
  qed
qed

lemma str_nat_not_empty: "str_nat n \<noteq> []"
  by (subst str_nat.simps) simp

lemma str_nat_value: "digits_value (str_nat n) 0 = n"
proof (induction n rule: str_nat.induct)
  case (1 n)
  show ?case
  proof (cases "n < 10")
    case True
    then show ?thesis
      by (subst str_nat.simps) (simp add: digits_value_def digit_char_props)
  next
    case False
    have "digits_value (str_nat (n div 10) @ [digit_char (n mod 10)]) 0 =
          10 * digits_value (str_nat (n div 10)) 0 + n mod 10"
      by (simp add: digits_value_def digit_char_props)
    with False 1 show ?thesis
      by (subst str_nat.simps) simp
  qed
qed

lemma py_strip_no_space:
  assumes "\<forall>c\<in>set s. \<not> py_isspace c"
  shows "py_strip s = s"
proof -
  have keep: "dropWhile py_isspace t = t" if "\<forall>c\<in>set t. \<not> py_isspace c" for t
    using that by (cases t) simp_all
  have "dropWhile py_isspace (rev (dropWhile py_isspace s)) = rev s"
    using assms by (simp add: keep)
  then show ?thesis by (simp add: py_strip_def)
qed

lemma py_int_str_nat:
  assumes "length (str_nat n) \<le> max_str_digits"
  shows "py_int (str_nat n) = Inr (int n)"
proof -
  obtain c cs where s: "str_nat n = c # cs"
    using str_nat_not_empty [of n] by (cases "str_nat n") auto
  have digs: "\<forall>x\<in>set (c # cs). \<exists>d<10. x = digit_char d"
    using str_nat_digits [of n] by (simp add: s)
  then have all_digit: "\<forall>x\<in>set (c # cs). is_digit x"
    and no_space: "\<forall>x\<in>set (c # cs). \<not> py_isspace x"
    by (auto simp: digit_char_props)
  from digs have c: "c \<noteq> CHR ''-''" "c \<noteq> CHR ''+''" "is_digit c"
    by (auto simp: digit_char_props)
  have "filter is_digit (c # cs) = c # cs"
    using all_digit by (simp only: filter_id_conv)
  then have "length (filter is_digit (c # cs)) \<le> max_str_digits"
    using assms by (simp only: s)
  then have "parse_decimal (c # cs) = Some (digits_value cs (digit_value c))"
    using all_digit c by (simp add: parse_decimal_def parse_digits_all_digits)
  also have "digits_value cs (digit_value c) = digits_value (c # cs) 0"
    by (simp add: digits_value_def)
  also have "\<dots> = n"
    using str_nat_value [of n] by (simp add: s)
  finally have "parse_decimal (c # cs) = Some n" .
  then show ?thesis
    using c by (simp add: py_int_def s [symmetric] py_strip_no_space [OF no_space [folded s]])
       (simp add: s)
qed

lemma emitted_delete_token_decodes:
  assumes "is_admin cfg u" and "CHR ''_'' \<notin> set cid"
    and "length (str_nat i) \<le> max_str_digits"
  shows "button_handler cfg ok ok' s u (''del_file_'' @ cid @ ''_'' @ str_nat i) =
         delete_file_from_category ok ok' s cid (int i)"
proof -
  have "split1 CHR ''_'' (cid @ ''_'' @ str_nat i) = [cid, str_nat i]"
    using split1_at_separator [of "CHR ''_''" cid "str_nat i"] assms(2) by simp
  with assms(1) show ?thesis
    by (simp add: del_file_token py_index_def py_int_str_nat [OF assms(3)] del: append.simps)
qed

subsection \<open>Committing to a category that is gone\<close>

lemma orphan_state_reachable: "reachable the_config orphan_state"
  unfolding orphan_state_def by (intro reachable_step uploading_state_reachable)

lemma orphan_state_db:
  "db orphan_state =
     \<lparr>db_categories = [], db_files = [stored_row 1 ''a1b2c3d4'' ''t1'' doc_a], db_seq = 1\<rparr>"
proof -
  have got: "get_category True (init_database\<lparr>db_categories := [docs_category]\<rparr>) ''a1b2c3d4''
      = Some \<lparr>cat_name = ''Docs'', cat_files = [], cat_created_by = 1001,
               cat_created_at = ''t0''\<rparr>"
    by code_simp
  have gone: "delete_category True (init_database\<lparr>db_categories := [docs_category]\<rparr>) ''a1b2c3d4''
      = (True, init_database)"
    by code_simp
  have deleted: "fst (button_handler the_config True True uploading_state 1001
                        ''confirm_del_cat_a1b2c3d4'') =
     \<lparr>db = init_database,
      pending_uploads = [1001 \<mapsto> \<lparr>ui_category_id = ''a1b2c3d4'', ui_files = []\<rparr>]\<rparr>"
    by (simp add: button_handler_def is_admin_1001 startswith_def delete_category_button_def
          uploading_state_eq got gone)
  have collected: "fst (handle_document
       \<lparr>db = init_database,
        pending_uploads = [1001 \<mapsto> \<lparr>ui_category_id = ''a1b2c3d4'', ui_files = []\<rparr>]\<rparr>
       1001 ''FA'' (Some ''a.txt'') (Some 10) (Some ''first'')) =
     \<lparr>db = init_database,
      pending_uploads = [1001 \<mapsto> \<lparr>ui_category_id = ''a1b2c3d4'', ui_files = [doc_a]\<rparr>]\<rparr>"
    by (simp add: handle_document_def Let_def doc_a_def)
  have stored: "add_files_to_category True ''t1'' init_database ''a1b2c3d4'' [doc_a] =
     (True, \<lparr>db_categories = [], db_files = [stored_row 1 ''a1b2c3d4'' ''t1'' doc_a],
             db_seq = 1\<rparr>)"
    by code_simp
  show ?thesis
    by (simp add: orphan_state_def deleted collected finish_upload_def Let_def stored)
qed

text \<open>
  Claim C4. \<open>appendFiles\<close> for a category id that is not in the repository should fail
  and store nothing. The schema declares \<open>FOREIGN KEY (category_id) REFERENCES
  categories (id)\<close>, but no connection switches its enforcement on, and
  \<open>add_files_to_category\<close> does not look the category up: on the empty database the
  call for \<open>deadbeef\<close> returns \<open>True\<close> and stores a row under that id. The bot gets
  there by itself: when the category of a pending upload is deleted before the commit,
  \<open>/finish_upload\<close> leaves a file row whose category does not exist.
\<close>

theorem add_files_to_absent_category_succeeds:
  "get_category True init_database ''deadbeef'' = None \<and>
   add_files_to_category True ''t1'' init_database ''deadbeef'' [doc_a] =
     (True, \<lparr>db_categories = [],
             db_files = [stored_row 1 ''deadbeef'' ''t1'' doc_a],
             db_seq = 1\<rparr>) \<and>
   reachable the_config orphan_state \<and>
   db orphan_state =
     \<lparr>db_categories = [], db_files = [stored_row 1 ''a1b2c3d4'' ''t1'' doc_a], db_seq = 1\<rparr>"
proof -
  have "get_category True init_database ''deadbeef'' = None"
    by code_simp
  moreover have "add_files_to_category True ''t1'' init_database ''deadbeef'' [doc_a] =
     (True, \<lparr>db_categories = [],
             db_files = [stored_row 1 ''deadbeef'' ''t1'' doc_a],
             db_seq = 1\<rparr>)"
    by code_simp
  ultimately show ?thesis
    using orphan_state_reachable orphan_state_db by (intro conjI)
qed

subsection \<open>Deleting a file with a negative index\<close>

text \<open>
  Claim C3. For an index out of bounds, negative ones included, \<open>deleteFileAt\<close> should
  report not-found and change nothing. \<open>delete_file\<close> checks the upper bound only: in
  \<open>Docs\<close>, whose files have the positions 0 and 1, the index \<open>-1\<close> is taken by Python's
  list indexing as the last position, the call deletes \<open>b.txt\<close> and returns \<open>True\<close>.
  \<open>delete_file_from_category\<close> has the same single check, so the callback data
  \<open>del_file_a1b2c3d4_-1\<close> of an admin deletes the file through the handler.
\<close>

theorem delete_file_negative_index_deletes:
  "map f_id (select_files_order_by_id docs_db ''a1b2c3d4'') = [1, 2] \<and>
   delete_file True docs_db ''a1b2c3d4'' (- 1) =
     (True, docs_db\<lparr>db_files := [stored_row 1 ''a1b2c3d4'' ''t1'' doc_a]\<rparr>) \<and>
   button_handler the_config True True committed_state 1001 ''del_file_a1b2c3d4_-1'' =
     (committed_state\<lparr>db := docs_db\<lparr>db_files := [stored_row 1 ''a1b2c3d4'' ''t1'' doc_a]\<rparr>\<rparr>,
      Replied [FileDeleted (Some ''b.txt'')])"
proof -
  have ids: "map f_id (select_files_order_by_id docs_db ''a1b2c3d4'') = [1, 2]"
    by code_simp
  have del: "delete_file True docs_db ''a1b2c3d4'' (- 1) =
     (True, docs_db\<lparr>db_files := [stored_row 1 ''a1b2c3d4'' ''t1'' doc_a]\<rparr>)"
    by code_simp
  have parts: "split1 CHR ''_'' ''a1b2c3d4_-1'' = [''a1b2c3d4'', ''-1'']"
    by code_simp
  have idx: "py_int ''-1'' = Inr (- 1)"
    by code_simp
  have got: "get_category True docs_db ''a1b2c3d4'' =
      Some \<lparr>cat_name = ''Docs'', cat_files = [doc_a, doc_b], cat_created_by = 1001,
             cat_created_at = ''t0''\<rparr>"
    by code_simp
  have name: "fi_file_name doc_b = Some ''b.txt''"
    by (simp add: doc_b_def)
  have button: "button_handler the_config True True committed_state 1001 ''del_file_a1b2c3d4_-1'' =
     (committed_state\<lparr>db := docs_db\<lparr>db_files := [stored_row 1 ''a1b2c3d4'' ''t1'' doc_a]\<rparr>\<rparr>,
      Replied [FileDeleted (Some ''b.txt'')])"
    by (simp add: button_handler_def is_admin_1001 startswith_def parts idx py_index_def
          delete_file_from_category_def committed_state_eq got del name)
  from ids del button show ?thesis by (intro conjI)
qed

end
